theory Spec2Isabelle
  imports Main "HOL-Library.AList"
begin

section \<open>Strings\<close>

text \<open>
  A JavaScript string is a sequence of code units. The model uses \<^typ>\<open>string\<close>; a
  \<^typ>\<open>char\<close> stands for one code unit below 256. None of the modelled functions
  distinguishes code units above that range from each other.
\<close>

abbreviation bs :: char where "bs \<equiv> CHR 0x5C"
abbreviation dq :: char where "dq \<equiv> CHR 0x22"
abbreviation sq :: char where "sq \<equiv> CHR 0x27"

text \<open>Decimal rendering of an integer, as a template literal renders a number.\<close>

definition digitChar :: "nat \<Rightarrow> char" where
  "digitChar d = ''0123456789'' ! d"

function decimalNat :: "nat \<Rightarrow> string" where
  "decimalNat n =
     (if n < 10 then [digitChar n] else decimalNat (n div 10) @ [digitChar (n mod 10)])"
  by pat_completeness auto
termination
  by (relation "measure id") auto

declare decimalNat.simps [simp del]

definition numberToString :: "int \<Rightarrow> string" where
  "numberToString i =
     (if i < 0 then CHR ''-'' # decimalNat (nat (- i)) else decimalNat (nat i))"

text \<open>\<^verbatim>\<open>indexOf\<close> and \<^verbatim>\<open>lastIndexOf\<close> of one code unit; \<open>None\<close> is the result -1.\<close>

fun indexOf :: "char \<Rightarrow> string \<Rightarrow> nat option" where
  "indexOf c [] = None"
| "indexOf c (x # xs) = (if x = c then Some 0 else map_option Suc (indexOf c xs))"

definition lastIndexOf :: "char \<Rightarrow> string \<Rightarrow> nat option" where
  "lastIndexOf c xs = map_option (\<lambda>i. length xs - 1 - i) (indexOf c (rev xs))"

text \<open>\<^verbatim>\<open>substring(a, b)\<close> swaps its arguments when \<open>a > b\<close> and clamps them to the length.\<close>

definition substring :: "nat \<Rightarrow> nat \<Rightarrow> string \<Rightarrow> string" where
  "substring a b xs = take (max a b - min a b) (drop (min a b) xs)"

text \<open>\<^verbatim>\<open>split('\n')\<close>: the pieces between the separators, empty pieces included.\<close>

fun splitOn :: "char \<Rightarrow> string \<Rightarrow> string list" where
  "splitOn c [] = [] # []"
| "splitOn c (x # xs) =
     (if x = c then [] # splitOn c xs
      else (case splitOn c xs of [] \<Rightarrow> [x] # [] | l # ls \<Rightarrow> (x # l) # ls))"

text \<open>White space as \<^verbatim>\<open>trim\<close> and \<^verbatim>\<open>parseInt\<close> see it, among the code units below 256.\<close>

definition isWhitespace :: "char \<Rightarrow> bool" where
  "isWhitespace c \<longleftrightarrow>
     c \<in> set [CHR 0x09, CHR 0x0A, CHR 0x0B, CHR 0x0C, CHR 0x0D, CHR 0x20, CHR 0xA0]"

definition trim :: "string \<Rightarrow> string" where
  "trim s = rev (dropWhile isWhitespace (rev (dropWhile isWhitespace s)))"

text \<open>\<^verbatim>\<open>toLowerCase\<close> on the code units below 256, and \<^verbatim>\<open>includes\<close>.\<close>

definition lowerChar :: "char \<Rightarrow> char" where
  "lowerChar c =
     (let n = (of_char c :: nat)
      in if (65 \<le> n \<and> n \<le> 90) \<or> (192 \<le> n \<and> n \<le> 222 \<and> n \<noteq> 215)
         then char_of (n + 32) else c)"

definition toLowerCase :: "string \<Rightarrow> string" where
  "toLowerCase s = map lowerChar s"

fun startsWith :: "string \<Rightarrow> string \<Rightarrow> bool" where
  "startsWith xs [] = True"
| "startsWith [] (p # ps) = False"
| "startsWith (x # xs) (p # ps) = (x = p \<and> startsWith xs ps)"

fun includesStr :: "string \<Rightarrow> string \<Rightarrow> bool" where
  "includesStr [] p = (p = [])"
| "includesStr (x # xs) p = (startsWith (x # xs) p \<or> includesStr xs p)"

section \<open>JavaScript values\<close>

text \<open>
  The values \<^verbatim>\<open>JSON.parse\<close> returns and the functions below build from them. Numbers
  are the integers (task ids, counts, dependencies) and \<^verbatim>\<open>NaN\<close>, which
  \<^verbatim>\<open>parseInt\<close> can return. An array is an object too and may carry named
  properties beside its elements: the second argument of \<open>JArr\<close>, empty in a parsed
  array. The value \<^verbatim>\<open>undefined\<close> of a missing property is \<open>None\<close>.
\<close>

datatype jsval = JNull | JBool bool | JNum int | JNaN | JStr string
  | JArr "jsval list" "(string \<times> jsval) list" | JObj "(string \<times> jsval) list"

text \<open>
  Reading a named property of a value other than \<^verbatim>\<open>null\<close>. The names read below
  (\<^verbatim>\<open>id\<close>, \<^verbatim>\<open>dependencies\<close>, \<^verbatim>\<open>message\<close>, \<^verbatim>\<open>content\<close>) are no
  properties of a primitive value or of a prototype.
\<close>

fun getProp :: "string \<Rightarrow> jsval \<Rightarrow> jsval option" where
  "getProp k (JObj ps) = map_of ps k"
| "getProp k (JArr xs ps) = map_of ps k"
| "getProp k v = None"

datatype error = CouldNotLocateArray | SyntaxError | NotAnArray | TypeError

text \<open>
  Assigning a named property. The source is an ES module, so it runs in strict mode,
  where the assignment to a property of a primitive value throws a \<^verbatim>\<open>TypeError\<close>,
  as it does on \<^verbatim>\<open>null\<close>. A new property is added behind the existing ones.
\<close>

fun setProp :: "string \<Rightarrow> jsval \<Rightarrow> jsval \<Rightarrow> error + jsval" where
  "setProp k v (JObj ps) = Inr (JObj (AList.update k v ps))"
| "setProp k v (JArr xs ps) = Inr (JArr xs (AList.update k v ps))"
| "setProp k v w = Inl TypeError"

fun truthy :: "jsval option \<Rightarrow> bool" where
  "truthy None = False"
| "truthy (Some JNull) = False"
| "truthy (Some (JBool b)) = b"
| "truthy (Some (JNum n)) = (n \<noteq> 0)"
| "truthy (Some JNaN) = False"
| "truthy (Some (JStr s)) = (s \<noteq> [])"
| "truthy (Some v) = True"

fun joinWith :: "string \<Rightarrow> string list \<Rightarrow> string" where
  "joinWith sep [] = []"
| "joinWith sep [x] = x"
| "joinWith sep (x # y # ys) = x @ sep @ joinWith sep (y # ys)"

text \<open>The string conversion that \<^verbatim>\<open>+=\<close> on a string applies to its right operand.\<close>

fun toStringJS :: "jsval \<Rightarrow> string" where
  "toStringJS JNull = ''null''"
| "toStringJS (JBool b) = (if b then ''true'' else ''false'')"
| "toStringJS (JNum n) = numberToString n"
| "toStringJS JNaN = ''NaN''"
| "toStringJS (JStr s) = s"
| "toStringJS (JArr xs ps) =
     joinWith '','' (map (\<lambda>x. if x = JNull then [] else toStringJS x) xs)"
| "toStringJS (JObj ps) = ''[object Object]''"

text \<open>
  \<^verbatim>\<open>parseInt(s, 10)\<close>: leading white space is skipped, one sign is read, and the
  longest run of decimal digits gives the value; without a digit the result is
  \<^verbatim>\<open>NaN\<close>.
\<close>

definition isDigit :: "char \<Rightarrow> bool" where
  "isDigit c \<longleftrightarrow> c \<in> set ''0123456789''"

definition digitValue :: "char \<Rightarrow> nat" where
  "digitValue c = of_char c - 48"

definition digitsValue :: "string \<Rightarrow> nat" where
  "digitsValue ds = foldl (\<lambda>acc c. 10 * acc + digitValue c) 0 ds"

definition parseInt10 :: "string \<Rightarrow> jsval" where
  "parseInt10 s =
     (let t = dropWhile isWhitespace s;
          neg = (case t of [] \<Rightarrow> False | c # r \<Rightarrow> c = CHR ''-'');
          u = (case t of [] \<Rightarrow> [] | c # r \<Rightarrow> if c = CHR ''-'' \<or> c = CHR ''+'' then r else t);
          ds = takeWhile isDigit u
      in if ds = [] then JNaN
         else JNum ((if neg then - 1 else 1) * int (digitsValue ds)))"

section \<open>Configuration, errors and the trace of effects\<close>

text \<open>
  The module reads its configuration from the process environment and from
  \<^verbatim>\<open>CONFIG\<close> (module \<^verbatim>\<open>utils.js\<close>); the model takes it as a record.
  \<open>projectName\<close> is \<^verbatim>\<open>process.env.PROJECT_NAME\<close>, \<open>today\<close> the date part of
  \<^verbatim>\<open>new Date().toISOString()\<close>. \<open>engineNullRead\<close> is the message the engine gives
  to the \<^verbatim>\<open>TypeError\<close> it throws when a property of \<^verbatim>\<open>null\<close> is read.
\<close>

record config =
  debug :: bool
  ollamaApiUrl :: string
  ollamaModel :: string
  projectName :: "string option"
  today :: string
  engineNullRead :: string

text \<open>
  The failure objects the gateway catches: a system error of \<^verbatim>\<open>fetch\<close> carries
  \<^verbatim>\<open>code\<close> and \<^verbatim>\<open>type\<close>, the object thrown for a response that is not ok
  carries \<^verbatim>\<open>status\<close> and \<^verbatim>\<open>message\<close>. The message of an \<^verbatim>\<open>Error\<close> is a
  string; the message of the object thrown for a response is whatever value the
  \<^verbatim>\<open>error\<close> field of the response's body holds, so it is a value of any kind.
\<close>

record errorObj =
  code :: "string option"
  etype :: "string option"
  message :: "jsval option"
  status :: "nat option"

datatype level = Debug | Info | Warn | Error

text \<open>
  One constructor for each call of \<^verbatim>\<open>log\<close> in the modelled functions, with the
  values its template interpolates. The text of an engine's own exception message is
  not part of the entry.
\<close>

datatype logmsg =
    FixedJsonEscaping
  | CallingOllama
  | UserMessage string
  | WaitingBeforeRetry nat nat
  | FullError errorObj
  | RawResponse string
  | FullResponseWritten
  | ErrorParsingJsonLine string
  | ResponseReceived
  | AccumulatedWritten
  | ProcessedWritten
  | AccumulatedResponse string
  | ProcessedResponse string
  | FailedToParseResponse
  | JsonIndices "nat option" "nat option"
  | ExtractedJson string
  | FailedToParseExtracted
  | CreatingFallbackTasks
  | CreatingFallbackTasksMissingMarkers
  | ExpectedSubtasksButParsed nat nat
  | CorrectingSubtaskId "jsval option" int
  | ErrorParsingSubtasks error
  | CreatingFallbackSubtasks

text \<open>
  What a call does beside returning: log entries, the waits of the retry loop in
  milliseconds, and lines on the error console. The progress indicator and the debug
  files are display and diagnostics only and are left out.
\<close>

datatype event = Log level logmsg | Wait nat | ConsoleError string

section \<open>User messages: \<open>handleOllamaError\<close>\<close>

text \<open>
  \<^verbatim>\<open>error.message?.toLowerCase().includes(w)\<close>: the optional chain stops at a message
  that is undefined or \<^verbatim>\<open>null\<close>, and the test is then false; a string is lowered and
  searched; any other value has no method \<^verbatim>\<open>toLowerCase\<close>, and the call throws a
  \<^verbatim>\<open>TypeError\<close>.
\<close>

definition messageIncludes :: "errorObj \<Rightarrow> string \<Rightarrow> error + bool" where
  "messageIncludes e w =
     (case message e of
        None \<Rightarrow> Inr False
      | Some JNull \<Rightarrow> Inr False
      | Some (JStr m) \<Rightarrow> Inr (includesStr (toLowerCase m) w)
      | Some _ \<Rightarrow> Inl TypeError)"

definition messageOrUnknown :: "errorObj \<Rightarrow> string" where
  \<comment> \<open>\<^verbatim>\<open>error.message || 'Unknown error'\<close>, interpolated into a template\<close>
  "messageOrUnknown e =
     (case message e of
        None \<Rightarrow> ''Unknown error''
      | Some m \<Rightarrow> if truthy (Some m) then toStringJS m else ''Unknown error'')"

text \<open>
  \<^verbatim>\<open>handleOllamaError\<close> returns the user message, or throws the \<^verbatim>\<open>TypeError\<close> of
  one of its two tests of the message. The test of \<^verbatim>\<open>error.type\<close> stands before the
  first of them and short-circuits it.
\<close>

definition handleOllamaError :: "config \<Rightarrow> errorObj \<Rightarrow> error + string" where
  "handleOllamaError cfg e =
     (let timedOut = Inr ''The request to Ollama timed out. Your prompt might be too complex or the server is busy.'';
          network =
            (case messageIncludes e ''network'' of
               Inl x \<Rightarrow> Inl x
             | Inr True \<Rightarrow>
                 Inr ''There was a network error connecting to Ollama. Please check your internet connection and try again.''
             | Inr False \<Rightarrow> Inr (''Error communicating with Ollama: '' @ messageOrUnknown e));
          byStatus =
            (case status e of
               Some st \<Rightarrow>
                 if st = 0 then network
                 else if st = 404 then
                   Inr (''Model '' @ [dq] @ ollamaModel cfg @ [dq]
                          @ '' not found. You may need to run: ollama pull '' @ ollamaModel cfg)
                 else if st = 400 then
                   Inr ''Bad request to Ollama API. The prompt might be malformed.''
                 else if st = 500 then
                   Inr ''Ollama server error. Check the Ollama logs for more details.''
                 else Inr (''Ollama API error ('' @ decimalNat st @ ''): '' @ messageOrUnknown e)
             | None \<Rightarrow> network)
      in if code e = Some ''ECONNREFUSED'' \<or> code e = Some ''ENOTFOUND'' then
           Inr (''Could not connect to Ollama server at '' @ ollamaApiUrl cfg
                  @ ''. Make sure Ollama is running.'')
         else if etype e = Some ''request-timeout'' then timedOut
         else (case messageIncludes e ''timeout'' of
                 Inl x \<Rightarrow> Inl x
               | Inr True \<Rightarrow> timedOut
               | Inr False \<Rightarrow> byStatus))"

section \<open>Stream assembler\<close>

text \<open>
  \<^verbatim>\<open>JSON.parse\<close> is the engine's; the model takes it as a parameter \<open>parse\<close>,
  \<open>None\<close> when it throws. Everything proved below holds for every such function.
\<close>

type_synonym parser = "string \<Rightarrow> jsval option"

text \<open>
  \<^verbatim>\<open>if (data.message && data.message.content) responseText += data.message.content\<close>:
  the text appended for one parsed line. Reading a property of \<^verbatim>\<open>null\<close> throws.
\<close>

definition messageContent :: "jsval \<Rightarrow> error + string" where
  "messageContent data =
     (if data = JNull then Inl TypeError
      else (case getProp ''message'' data of
          None \<Rightarrow> Inr []
        | Some m \<Rightarrow>
            if truthy (Some m) then
              (case getProp ''content'' m of
                 None \<Rightarrow> Inr []
               | Some c \<Rightarrow> if truthy (Some c) then Inr (toStringJS c) else Inr [])
            else Inr []))"

text \<open>The body of the loop over the lines: its \<^verbatim>\<open>catch\<close> skips the line.\<close>

definition assembleLine :: "parser \<Rightarrow> bool \<Rightarrow> string \<Rightarrow> event list \<times> string" where
  "assembleLine parse dbg line =
     (let skip = (if dbg then [Log Debug (ErrorParsingJsonLine line)] else [], [])
      in case parse line of
           None \<Rightarrow> skip
         | Some data \<Rightarrow> (case messageContent data of Inl e \<Rightarrow> skip | Inr t \<Rightarrow> ([], t)))"

text \<open>\<^verbatim>\<open>s.split('\n').filter(line => line.trim())\<close> and the loop over its lines.\<close>

definition nonBlankLines :: "string \<Rightarrow> string list" where
  "nonBlankLines s = filter (\<lambda>line. trim line \<noteq> []) (splitOn CHR 0x0A s)"

definition assembleText :: "parser \<Rightarrow> bool \<Rightarrow> string \<Rightarrow> event list \<times> string" where
  "assembleText parse dbg s =
     (let rs = map (assembleLine parse dbg) (nonBlankLines s)
      in (concat (map fst rs), concat (map snd rs)))"

text \<open>
  The two delivery modes. A node-fetch body is collected whole and then split into
  lines; a body with \<^verbatim>\<open>getReader\<close> is split into lines fragment by fragment. The
  fragments are given as decoded text, in arrival order.
\<close>

definition debugRaw :: "bool \<Rightarrow> string \<Rightarrow> event list" where
  "debugRaw dbg s =
     (if dbg then [Log Debug (RawResponse (substring 0 500 s)), Log Debug FullResponseWritten]
      else [])"

definition assembleNodeBody :: "parser \<Rightarrow> bool \<Rightarrow> string list \<Rightarrow> event list \<times> string" where
  "assembleNodeBody parse dbg chunks =
     (let responseString = concat chunks;
          r = assembleText parse dbg responseString
      in (debugRaw dbg responseString @ fst r, snd r))"

definition assembleReaderBody :: "parser \<Rightarrow> bool \<Rightarrow> string list \<Rightarrow> event list \<times> string" where
  "assembleReaderBody parse dbg chunks =
     (let rs = map (assembleText parse dbg) chunks
      in (concat (map fst rs) @ debugRaw dbg (concat chunks), concat (map snd rs)))"

section \<open>Response normalizer: \<open>processOllamaResponse\<close>\<close>

text \<open>
  \<^verbatim>\<open>text = text.replace(/\\'/g, "'")\<close>: a global replace scans from the left; at a
  match the replacement is emitted and the scan resumes behind the match.
\<close>

fun unescapeSingleQuotes :: "string \<Rightarrow> string" where
  "unescapeSingleQuotes (a # b # xs) =
     (if a = bs \<and> b = sq then sq # unescapeSingleQuotes xs
      else a # unescapeSingleQuotes (b # xs))"
| "unescapeSingleQuotes xs = xs"

text \<open>The character class of the lookahead \<^verbatim>\<open>(?=[^"ntbfr\/])\<close>, before negation.\<close>

definition recognised :: "char \<Rightarrow> bool" where
  "recognised c \<longleftrightarrow>
     c \<in> set [dq, CHR ''n'', CHR ''t'', CHR ''b'', CHR ''f'', CHR ''r'', CHR ''/'']"

text \<open>
  \<^verbatim>\<open>text = text.replace(/\\(?=[^"ntbfr\/])/g, "\\\\")\<close>: the match is the single
  backslash; the lookahead needs a following code unit outside the class and consumes
  nothing, so the scan resumes at that code unit. A backslash that ends the text does
  not match.
\<close>

fun escapeBackslashes :: "string \<Rightarrow> string" where
  "escapeBackslashes (a # b # xs) =
     (if a = bs \<and> \<not> recognised b then bs # bs # escapeBackslashes (b # xs)
      else a # escapeBackslashes (b # xs))"
| "escapeBackslashes xs = xs"

text \<open>
  \<^verbatim>\<open>text = text.replace(/(?<!\\)\\"/g, '\\"')\<close>: a backslash and a quote, not
  preceded by a backslash in the scanned text, are replaced by the two code units of the
  literal \<^verbatim>\<open>'\\"'\<close>, a backslash and a quote. The first argument says whether the
  code unit before the scan position is a backslash.
\<close>

fun fixQuoteEscapes :: "bool \<Rightarrow> string \<Rightarrow> string" where
  "fixQuoteEscapes prev (a # b # xs) =
     (if a = bs \<and> b = dq \<and> \<not> prev then bs # dq # fixQuoteEscapes False xs
      else a # fixQuoteEscapes (a = bs) (b # xs))"
| "fixQuoteEscapes prev xs = xs"

text \<open>
  The three replacements in the order of the source. \<^verbatim>\<open>String.prototype.replace\<close>
  does not throw on a string, so the \<^verbatim>\<open>catch\<close> branch is never taken. The debug log
  entry of the function is recorded by its caller's trace below.
\<close>

definition processOllamaResponse :: "string \<Rightarrow> string" where
  "processOllamaResponse text =
     fixQuoteEscapes False (escapeBackslashes (unescapeSingleQuotes text))"

text \<open>
  Texts in which every backslash either ends the text or stands before a code unit of
  the lookahead's class.
\<close>

fun wellEscaped :: "string \<Rightarrow> bool" where
  "wellEscaped (a # b # xs) = ((a \<noteq> bs \<or> recognised b) \<and> wellEscaped (b # xs))"
| "wellEscaped xs = True"

section \<open>Structured extractor of the whole-document path\<close>

text \<open>
  The placeholder with index \<open>i\<close> of \<^verbatim>\<open>Array.from({ length: numTasks }, (_, i) => ...)\<close>.
  A requested count is a natural number; the engine's limits on the length of an array
  and on memory are not modelled.
\<close>

definition fallbackTask :: "nat \<Rightarrow> jsval" where
  "fallbackTask i = JObj
     [(''id'', JNum (int i + 1)),
      (''title'', JStr (''Task '' @ decimalNat (i + 1))),
      (''description'', JStr (''Auto-generated fallback task '' @ decimalNat (i + 1))),
      (''status'', JStr ''pending''),
      (''dependencies'', JArr [] []),
      (''priority'', JStr ''medium''),
      (''details'',
         JStr ''This task was auto-generated due to parsing issues with the AI response.''),
      (''testStrategy'', JStr ''Manual verification'')]"

definition fallbackDocument :: "config \<Rightarrow> nat \<Rightarrow> string \<Rightarrow> jsval" where
  "fallbackDocument cfg numTasks prdPath = JObj
     [(''tasks'', JArr (map fallbackTask [0..<numTasks]) []),
      (''metadata'', JObj
         [(''projectName'',
             JStr (case projectName cfg of
                     None \<Rightarrow> ''Task Master Project''
                   | Some n \<Rightarrow> if n = [] then ''Task Master Project'' else n)),
          (''totalTasks'', JNum (int numTasks)),
          (''sourceFile'', JStr prdPath),
          (''generatedAt'', JStr (today cfg)),
          (''note'',
             JStr ''Tasks were generated as fallbacks due to AI response parsing issues.'')])]"

text \<open>
  The ladder of \<^verbatim>\<open>handleStreamingRequest\<close>: parse the text as it is; else parse the
  slice from the first \<^verbatim>\<open>{\<close> to the last \<^verbatim>\<open>}\<close>; else build the fallback. Every
  path of the inner \<^verbatim>\<open>try\<close> returns, so the outer \<^verbatim>\<open>catch\<close> with its third copy of
  the fallback is never entered.
\<close>

definition extractResponse ::
  "parser \<Rightarrow> config \<Rightarrow> nat \<Rightarrow> string \<Rightarrow> string \<Rightarrow> event list \<times> jsval" where
  "extractResponse parse cfg numTasks prdPath processedText =
     (case parse processedText of
        Some jsonResponse \<Rightarrow> ([], jsonResponse)
      | None \<Rightarrow>
          (let jsonStart = indexOf CHR ''{'' processedText;
               jsonEnd = lastIndexOf CHR ''}'' processedText;
               l0 = [Log Debug FailedToParseResponse, Log Debug (JsonIndices jsonStart jsonEnd)];
               missing = (l0 @ [Log Warn CreatingFallbackTasksMissingMarkers],
                          fallbackDocument cfg numTasks prdPath)
           in case jsonStart of
                None \<Rightarrow> missing
              | Some i \<Rightarrow>
                  (case jsonEnd of
                     None \<Rightarrow> missing
                   | Some j \<Rightarrow>
                       if j > i then
                         (let jsonText = substring i (j + 1) processedText;
                              l1 = l0 @ [Log Debug (ExtractedJson (substring 0 500 jsonText))]
                          in case parse jsonText of
                               Some extractedJson \<Rightarrow> (l1, extractedJson)
                             | None \<Rightarrow>
                                 (l1 @ [Log Debug FailedToParseExtracted,
                                        Log Warn CreatingFallbackTasks],
                                  fallbackDocument cfg numTasks prdPath))
                       else missing)))"

section \<open>The gateway: \<open>handleStreamingRequest\<close> and \<open>callClaude\<close>\<close>

text \<open>
  What \<^verbatim>\<open>fetch\<close> answers to the request is the environment's: either the promise
  rejects, or a response arrives with its status, the value that
  \<^verbatim>\<open>response.json()\<close> resolves to (read only when the response is not ok; \<open>None\<close>
  when it rejects, because the body is no JSON) and its body stream. A body stream
  delivers fragments and then ends, or fails with an error. \<^verbatim>\<open>fetch\<close> is bound to
  node-fetch (\<^verbatim>\<open>import fetch from 'node-fetch'\<close>, version 3 in \<^verbatim>\<open>package.json\<close>),
  whose body is a Node stream without \<^verbatim>\<open>getReader\<close>: the responses the code receives
  have a \<open>NodeBody\<close>. The branch of the source for a body with \<^verbatim>\<open>getReader\<close> is
  modelled by \<open>ReaderBody\<close>. The prompts and the model name shape the request only, so
  they are no arguments of the model.
\<close>

datatype body =
    NodeBody "string list" "errorObj option"
  | ReaderBody "string list" "errorObj option"

datatype fetched = Rejected errorObj | Response nat "jsval option" body

definition assembleBody :: "parser \<Rightarrow> bool \<Rightarrow> body \<Rightarrow> event list \<times> (errorObj + string)" where
  "assembleBody parse dbg b =
     (case b of
        NodeBody chunks None \<Rightarrow>
          (fst (assembleNodeBody parse dbg chunks), Inr (snd (assembleNodeBody parse dbg chunks)))
      | NodeBody chunks (Some err) \<Rightarrow> ([], Inl err)
      | ReaderBody chunks None \<Rightarrow>
          (fst (assembleReaderBody parse dbg chunks),
           Inr (snd (assembleReaderBody parse dbg chunks)))
      | ReaderBody chunks (Some err) \<Rightarrow>
          (concat (map (\<lambda>c. fst (assembleText parse dbg c)) chunks), Inl err))"

text \<open>
  \<^verbatim>\<open>const error = await response.json().catch(() => ({}))\<close> and
  \<^verbatim>\<open>error.error || `HTTP error ${response.status}`\<close>: the value of the message of the
  object thrown for a response that is not ok. A body that is no JSON gives the empty
  object, which has no \<^verbatim>\<open>error\<close> field.
\<close>

definition httpFailureMessage :: "nat \<Rightarrow> jsval option \<Rightarrow> jsval" where
  "httpFailureMessage st bodyJson =
     (case (case bodyJson of None \<Rightarrow> None | Some b \<Rightarrow> getProp ''error'' b) of
        None \<Rightarrow> JStr (''HTTP error '' @ decimalNat st)
      | Some m \<Rightarrow> if truthy (Some m) then m else JStr (''HTTP error '' @ decimalNat st))"

text \<open>
  What the \<^verbatim>\<open>if (!response.ok)\<close> block throws: the object
  \<^verbatim>\<open>{ status: response.status, message: ... }\<close>, or, when the body is the JSON value
  \<^verbatim>\<open>null\<close>, the \<^verbatim>\<open>TypeError\<close> of reading \<^verbatim>\<open>error.error\<close>, an \<^verbatim>\<open>Error\<close> with
  the engine's message and no status.
\<close>

definition httpFailure :: "config \<Rightarrow> nat \<Rightarrow> jsval option \<Rightarrow> errorObj" where
  "httpFailure cfg st bodyJson =
     (if bodyJson = Some JNull then
        \<lparr>code = None, etype = None, message = Some (JStr (engineNullRead cfg)), status = None\<rparr>
      else
        \<lparr>code = None, etype = None, message = Some (httpFailureMessage st bodyJson),
         status = Some st\<rparr>)"

definition handleStreamingRequest ::
  "parser \<Rightarrow> config \<Rightarrow> nat \<Rightarrow> string \<Rightarrow> fetched \<Rightarrow> event list \<times> (errorObj + jsval)" where
  "handleStreamingRequest parse cfg numTasks prdPath f =
     (case f of
        Rejected err \<Rightarrow> ([], Inl err)
      | Response st bodyJson b \<Rightarrow>
          if \<not> (200 \<le> st \<and> st \<le> 299) then ([], Inl (httpFailure cfg st bodyJson))
          else
            (case assembleBody parse (debug cfg) b of
               (l1, Inl err) \<Rightarrow> (l1, Inl err)
             | (l1, Inr responseText) \<Rightarrow>
                 (let processedText = processOllamaResponse responseText;
                      l2 = Log Info ResponseReceived #
                           (if debug cfg then
                              [Log Debug FixedJsonEscaping,
                               Log Debug AccumulatedWritten,
                               Log Debug ProcessedWritten,
                               Log Debug (AccumulatedResponse (substring 0 500 responseText)),
                               Log Debug (ProcessedResponse (substring 0 500 processedText))]
                            else []);
                      r = extractResponse parse cfg numTasks prdPath processedText
                  in (l1 @ l2 @ fst r, Inr (snd r)))))"

text \<open>
  The test that guards the retry in \<^verbatim>\<open>callClaude\<close>, beside \<^verbatim>\<open>retryCount < 2\<close>:
  \<^verbatim>\<open>error.code === 'ECONNREFUSED' || error.code === 'ENOTFOUND' ||
  error.message?.toLowerCase().includes('timeout') ||
  error.message?.toLowerCase().includes('network')\<close>. It throws when the message is
  neither a string nor undefined nor \<^verbatim>\<open>null\<close> and no code matched.
\<close>

definition transient :: "errorObj \<Rightarrow> error + bool" where
  "transient e =
     (if code e = Some ''ECONNREFUSED'' \<or> code e = Some ''ENOTFOUND'' then Inr True
      else (case messageIncludes e ''timeout'' of
              Inl x \<Rightarrow> Inl x
            | Inr True \<Rightarrow> Inr True
            | Inr False \<Rightarrow> messageIncludes e ''network''))"

text \<open>
  What a call of \<^verbatim>\<open>callClaude\<close> throws: the \<^verbatim>\<open>Error\<close> it makes from the user
  message, or an exception that is thrown inside its \<^verbatim>\<open>catch\<close> block and escapes it.
\<close>

datatype thrown = ErrorWith string | Escaped error

text \<open>
  \<^verbatim>\<open>callClaude\<close>. The argument \<open>world\<close> gives what \<^verbatim>\<open>fetch\<close> answers to the
  attempt made with a given retry count. The result is the trace and either what is
  thrown or the value returned. In the \<^verbatim>\<open>catch\<close> block the user message is computed
  and logged first; the retry test is evaluated only when \<^verbatim>\<open>retryCount < 2\<close>.
\<close>

function callClaude ::
  "parser \<Rightarrow> config \<Rightarrow> nat \<Rightarrow> string \<Rightarrow> (nat \<Rightarrow> fetched) \<Rightarrow> nat \<Rightarrow> event list \<times> (thrown + jsval)"
  where
  "callClaude parse cfg numTasks prdPath world retryCount =
     (case handleStreamingRequest parse cfg numTasks prdPath (world retryCount) of
        (l, Inr v) \<Rightarrow> (Log Info CallingOllama # l, Inr v)
      | (l, Inl err) \<Rightarrow>
          (case handleOllamaError cfg err of
             Inl x \<Rightarrow> (Log Info CallingOllama # l, Inl (Escaped x))
           | Inr userMessage \<Rightarrow>
               (let l1 = Log Info CallingOllama # l @ [Log Error (UserMessage userMessage)];
                    fail = (l1 @ [ConsoleError userMessage]
                               @ (if debug cfg then [Log Debug (FullError err)] else []),
                            Inl (ErrorWith userMessage))
                in if retryCount < 2 then
                     (case transient err of
                        Inl x \<Rightarrow> (l1, Inl (Escaped x))
                      | Inr True \<Rightarrow>
                          (let waitTime = (retryCount + 1) * 5000;
                               r = callClaude parse cfg numTasks prdPath world (retryCount + 1)
                           in (l1 @ [Log Info (WaitingBeforeRetry (waitTime div 1000)
                                                  (retryCount + 1)),
                                     Wait waitTime] @ fst r,
                               snd r))
                      | Inr False \<Rightarrow> fail)
                   else fail)))"
  by pat_completeness auto
termination
  by (relation "measure (\<lambda>(parse, cfg, numTasks, prdPath, world, retryCount). 2 - retryCount)")
    auto

declare callClaude.simps [simp del]

section \<open>Subtask extractor and normalizer: \<open>parseSubtasksFromText\<close>\<close>

text \<open>\<^verbatim>\<open>typeof dep === 'string' ? parseInt(dep, 10) : dep\<close>\<close>

definition coerceDependency :: "jsval \<Rightarrow> jsval" where
  "coerceDependency dep = (case dep of JStr s \<Rightarrow> parseInt10 s | _ \<Rightarrow> dep)"

text \<open>
  The new value of \<^verbatim>\<open>subtask.dependencies\<close>. An array is truthy, so the test of the
  source is whether the property holds an array; \<^verbatim>\<open>map\<close> returns a fresh array.
\<close>

definition coerceDependencies :: "jsval option \<Rightarrow> jsval" where
  "coerceDependencies d =
     (case d of Some (JArr deps ps) \<Rightarrow> JArr (map coerceDependency deps) [] | _ \<Rightarrow> JArr [] [])"

text \<open>
  The callback of \<^verbatim>\<open>subtasks.map\<close> at one element: its log entries and the element
  returned, or the \<^verbatim>\<open>TypeError\<close> thrown on \<^verbatim>\<open>null\<close> (at the first read) and on a
  primitive value (at the first assignment, after the correction was logged).
\<close>

definition normalizeSubtask :: "int \<Rightarrow> int \<Rightarrow> nat \<Rightarrow> jsval \<Rightarrow> event list \<times> (error + jsval)" where
  "normalizeSubtask startId parentTaskId index subtask =
     (if subtask = JNull then ([], Inl TypeError)
      else
        (let newId = startId + int index;
             differs = (getProp ''id'' subtask \<noteq> Some (JNum newId));
             l = (if differs
                  then [Log Warn (CorrectingSubtaskId (getProp ''id'' subtask) newId)] else []);
             s1 = (if differs then setProp ''id'' (JNum newId) subtask else Inr subtask)
         in case s1 of
              Inl e \<Rightarrow> (l, Inl e)
            | Inr t1 \<Rightarrow>
                (case setProp ''dependencies''
                        (coerceDependencies (getProp ''dependencies'' t1)) t1 of
                   Inl e \<Rightarrow> (l, Inl e)
                 | Inr t2 \<Rightarrow>
                     (case setProp ''status'' (JStr ''pending'') t2 of
                        Inl e \<Rightarrow> (l, Inl e)
                      | Inr t3 \<Rightarrow> (l, setProp ''parentTaskId'' (JNum parentTaskId) t3)))))"

text \<open>\<^verbatim>\<open>subtasks.map(...)\<close> from index \<open>i\<close> on: it stops at the first element that throws.\<close>

fun mapSubtasks :: "int \<Rightarrow> int \<Rightarrow> nat \<Rightarrow> jsval list \<Rightarrow> event list \<times> (error + jsval list)" where
  "mapSubtasks startId parentTaskId i [] = ([], Inr [])"
| "mapSubtasks startId parentTaskId i (x # xs) =
     (case normalizeSubtask startId parentTaskId i x of
        (l, Inl e) \<Rightarrow> (l, Inl e)
      | (l, Inr y) \<Rightarrow>
          (case mapSubtasks startId parentTaskId (Suc i) xs of
             (l', Inl e) \<Rightarrow> (l @ l', Inl e)
           | (l', Inr ys) \<Rightarrow> (l @ l', Inr (y # ys))))"

text \<open>The \<^verbatim>\<open>try\<close> block of \<^verbatim>\<open>parseSubtasksFromText\<close>.\<close>

definition parseSubtasksTry ::
  "parser \<Rightarrow> string \<Rightarrow> int \<Rightarrow> nat \<Rightarrow> int \<Rightarrow> event list \<times> (error + jsval list)" where
  "parseSubtasksTry parse text startId expectedCount parentTaskId =
     (case indexOf CHR ''['' text of
        None \<Rightarrow> ([], Inl CouldNotLocateArray)
      | Some jsonStartIndex \<Rightarrow>
          (case lastIndexOf CHR '']'' text of
             None \<Rightarrow> ([], Inl CouldNotLocateArray)
           | Some jsonEndIndex \<Rightarrow>
               if jsonEndIndex < jsonStartIndex then ([], Inl CouldNotLocateArray)
               else
                 (case parse (substring jsonStartIndex (jsonEndIndex + 1) text) of
                    None \<Rightarrow> ([], Inl SyntaxError)
                  | Some (JArr subtasks ps) \<Rightarrow>
                      (let l = (if length subtasks \<noteq> expectedCount
                                then [Log Warn (ExpectedSubtasksButParsed expectedCount
                                                  (length subtasks))]
                                else []);
                           r = mapSubtasks startId parentTaskId 0 subtasks
                       in (l @ fst r, snd r))
                  | Some _ \<Rightarrow> ([], Inl NotAnArray))))"

text \<open>The array the \<^verbatim>\<open>catch\<close> block builds.\<close>

definition fallbackSubtask :: "int \<Rightarrow> int \<Rightarrow> nat \<Rightarrow> jsval" where
  "fallbackSubtask startId parentTaskId i = JObj
     [(''id'', JNum (startId + int i)),
      (''title'', JStr (''Subtask '' @ numberToString (startId + int i))),
      (''description'', JStr ''Auto-generated fallback subtask''),
      (''dependencies'', JArr [] []),
      (''details'',
         JStr ''This is a fallback subtask created because parsing failed. Please update with real details.''),
      (''status'', JStr ''pending''),
      (''parentTaskId'', JNum parentTaskId)]"

definition fallbackSubtasks :: "int \<Rightarrow> nat \<Rightarrow> int \<Rightarrow> jsval list" where
  "fallbackSubtasks startId expectedCount parentTaskId =
     map (fallbackSubtask startId parentTaskId) [0..<expectedCount]"

definition parseSubtasksFromText ::
  "parser \<Rightarrow> string \<Rightarrow> int \<Rightarrow> nat \<Rightarrow> int \<Rightarrow> event list \<times> jsval list" where
  "parseSubtasksFromText parse text startId expectedCount parentTaskId =
     (case parseSubtasksTry parse text startId expectedCount parentTaskId of
        (l, Inr subtasks) \<Rightarrow> (l, subtasks)
      | (l, Inl e) \<Rightarrow>
          (l @ [Log Error (ErrorParsingSubtasks e), Log Warn CreatingFallbackSubtasks],
           fallbackSubtasks startId expectedCount parentTaskId))"

section \<open>The shared research client: \<open>getPerplexityClient\<close>\<close>

text \<open>
  The module variable \<^verbatim>\<open>perplexity\<close> and the clients constructed so far. A client
  object is identified by its number of construction. The key is
  \<^verbatim>\<open>process.env.PERPLEXITY_API_KEY\<close> at the time of the call. The constructor
  \<^verbatim>\<open>new OpenAI({ apiKey, baseURL })\<close> is the library's and returns a client whenever a
  key is given.
\<close>

record client =
  clientId :: nat
  apiKey :: string
  baseURL :: string

record clientState =
  perplexity :: "client option"
  constructed :: nat

definition initialClientState :: clientState where
  "initialClientState = \<lparr>perplexity = None, constructed = 0\<rparr>"

definition getPerplexityClient :: "string option \<Rightarrow> clientState \<Rightarrow> (string + client) \<times> clientState" where
  "getPerplexityClient key st =
     (case perplexity st of
        Some c \<Rightarrow> (Inr c, st)
      | None \<Rightarrow>
          (case key of
             None \<Rightarrow>
               (Inl ''PERPLEXITY_API_KEY environment variable is missing. Set it to use research-backed features.'',
                st)
           | Some k \<Rightarrow>
               if k = [] then
                 (Inl ''PERPLEXITY_API_KEY environment variable is missing. Set it to use research-backed features.'',
                  st)
               else
                 (let c = \<lparr>clientId = constructed st, apiKey = k,
                           baseURL = ''https://api.perplexity.ai''\<rparr>
                  in (Inr c, \<lparr>perplexity = Some c, constructed = constructed st + 1\<rparr>))))"

text \<open>A run of calls, each with the key the environment holds at its time.\<close>

fun getPerplexityClients ::
  "string option list \<Rightarrow> clientState \<Rightarrow> (string + client) list \<times> clientState" where
  "getPerplexityClients [] st = ([], st)"
| "getPerplexityClients (k # ks) st =
     (let r = getPerplexityClient k st; rs = getPerplexityClients ks (snd r)
      in (fst r # fst rs, snd rs))"

section \<open>Dependency graph manager\<close>

text \<open>
  Modelled from the spec: the module \<^verbatim>\<open>dependency-manager.js\<close> is not among the
  sources. A reference is a bare task id or a pair of a parent id and a local subtask
  id; the collection is the list of tasks, each with its dependencies and its subtasks.
\<close>

datatype ref = TaskRef nat | SubtaskRef nat nat

text \<open>Modelled from the spec: a subtask, with the fields the graph manager reads.\<close>

record subtaskRec =
  subId :: nat
  subDeps :: "ref list"

text \<open>Modelled from the spec: a task, with the fields the graph manager reads.\<close>

record taskRec =
  taskId :: nat
  taskDeps :: "ref list"
  taskSubs :: "subtaskRec list"

type_synonym collection = "taskRec list"

text \<open>
  Modelled from the spec: resolution of a reference against the collection. It yields
  the dependencies of the entity referred to, or \<open>None\<close> when nothing has that id.
\<close>

fun entityDeps :: "collection \<Rightarrow> ref \<Rightarrow> ref list option" where
  "entityDeps c (TaskRef i) =
     (case find (\<lambda>t. taskId t = i) c of None \<Rightarrow> None | Some t \<Rightarrow> Some (taskDeps t))"
| "entityDeps c (SubtaskRef p i) =
     (case find (\<lambda>t. taskId t = p) c of
        None \<Rightarrow> None
      | Some t \<Rightarrow>
          (case find (\<lambda>s. subId s = i) (taskSubs t) of
             None \<Rightarrow> None
           | Some s \<Rightarrow> Some (subDeps s)))"

text \<open>Modelled from the spec: the outgoing edges of an entity.\<close>

definition successors :: "collection \<Rightarrow> ref \<Rightarrow> ref list" where
  "successors c r = (case entityDeps c r of None \<Rightarrow> [] | Some ds \<Rightarrow> ds)"

text \<open>Modelled from the spec: the references of all entities of the collection.\<close>

definition allRefs :: "collection \<Rightarrow> ref list" where
  "allRefs c =
     concat (map (\<lambda>t. TaskRef (taskId t) # map (\<lambda>s. SubtaskRef (taskId t) (subId s)) (taskSubs t)) c)"

text \<open>
  Modelled from the spec: the depth-first search along outgoing edges, with a stack of
  references still to visit and the list of those already expanded. It answers whether
  \<open>target\<close> is found.
\<close>

function reaches :: "collection \<Rightarrow> ref \<Rightarrow> ref list \<Rightarrow> ref list \<Rightarrow> bool" where
  "reaches c target [] visited = False"
| "reaches c target (x # stack) visited =
     (if x = target then True
      else if x \<in> set visited then reaches c target stack visited
      else reaches c target (successors c x @ stack) (x # visited))"
  by pat_completeness auto
termination
proof (relation "measures [\<lambda>(c, target, stack, visited). card (set (allRefs c) - set visited),
                           \<lambda>(c, target, stack, visited). length stack]", goal_cases)
  case 1
  show ?case by simp
next
  case (2 c target x stack visited)
  then show ?case by simp
next
  case (3 c target x stack visited)
  show ?case
  proof (cases "x \<in> set (allRefs c)")
    case True
    with 3 have "card (set (allRefs c) - set (x # visited)) < card (set (allRefs c) - set visited)"
      by (intro psubset_card_mono) auto
    then show ?thesis by simp
  next
    case False
    have "entityDeps c x = None"
    proof (cases "entityDeps c x")
      case None
      then show ?thesis .
    next
      case (Some ds)
      have "x \<in> set (allRefs c)"
      proof (cases x)
        case (TaskRef i)
        with Some obtain t where "find (\<lambda>t. taskId t = i) c = Some t"
          by (auto split: option.splits)
        then have "t \<in> set c \<and> taskId t = i"
          by (auto simp: find_Some_iff)
        with TaskRef show ?thesis by (force simp: allRefs_def)
      next
        case (SubtaskRef p i)
        with Some obtain t s where "find (\<lambda>t. taskId t = p) c = Some t"
          and "find (\<lambda>s. subId s = i) (taskSubs t) = Some s"
          by (auto split: option.splits)
        then have "t \<in> set c \<and> taskId t = p \<and> s \<in> set (taskSubs t) \<and> subId s = i"
          by (auto simp: find_Some_iff)
        with SubtaskRef show ?thesis by (force simp: allRefs_def)
      qed
      with False show ?thesis by simp
    qed
    moreover have "set (allRefs c) - set (x # visited) = set (allRefs c) - set visited"
      using False by auto
    ultimately show ?thesis by (simp add: successors_def)
  qed
qed

text \<open>Modelled from the spec: the dependency relation as a directed graph.\<close>

definition edges :: "collection \<Rightarrow> (ref \<times> ref) set" where
  "edges c = {(a, b). b \<in> set (successors c a)}"

text \<open>Modelled from the spec: the update of the first element with a given id.\<close>

fun updateFirst :: "('a \<Rightarrow> bool) \<Rightarrow> ('a \<Rightarrow> 'a) \<Rightarrow> 'a list \<Rightarrow> 'a list" where
  "updateFirst P f [] = []"
| "updateFirst P f (x # xs) = (if P x then f x # xs else x # updateFirst P f xs)"

text \<open>
  Modelled from the spec: the edge is appended to the dependencies of the task, or of
  the subtask of the task, that the reference resolves to.
\<close>

fun appendDependency :: "collection \<Rightarrow> ref \<Rightarrow> ref \<Rightarrow> collection" where
  "appendDependency c (TaskRef i) d =
     updateFirst (\<lambda>t. taskId t = i) (\<lambda>t. t\<lparr>taskDeps := taskDeps t @ [d]\<rparr>) c"
| "appendDependency c (SubtaskRef p i) d =
     updateFirst (\<lambda>t. taskId t = p)
       (\<lambda>t. t\<lparr>taskSubs :=
                 updateFirst (\<lambda>s. subId s = i) (\<lambda>s. s\<lparr>subDeps := subDeps s @ [d]\<rparr>)
                   (taskSubs t)\<rparr>) c"

text \<open>
  Modelled from the spec: \<^verbatim>\<open>addDependency(ref, dependsOnRef)\<close> with its checks in the
  order of section 4.5. The result is the error, if any, and the collection afterwards.
\<close>

datatype depError = NotFoundError ref | SelfReferenceError | CycleError

definition addDependency :: "collection \<Rightarrow> ref \<Rightarrow> ref \<Rightarrow> depError option \<times> collection" where
  "addDependency c r d =
     (if entityDeps c r = None then (Some (NotFoundError r), c)
      else if entityDeps c d = None then (Some (NotFoundError d), c)
      else if r = d then (Some SelfReferenceError, c)
      else if d \<in> set (successors c r) then (None, c)
      else if reaches c r [d] [] then (Some CycleError, c)
      else (None, appendDependency c r d))"

text \<open>
  Modelled from the spec: the invariant of section 3 that every dependency reference
  resolves to an existing entity.
\<close>

definition allResolve :: "collection \<Rightarrow> bool" where
  "allResolve c \<longleftrightarrow> (\<forall>a \<in> set (allRefs c). \<forall>b \<in> set (successors c a). entityDeps c b \<noteq> None)"

text \<open>The collection of section 8: tasks 1, 2, 3 with edges 2 to 1 and 3 to 1 and 2.\<close>

definition exampleTasks :: collection where
  "exampleTasks =
     [\<lparr>taskId = 1, taskDeps = [], taskSubs = []\<rparr>,
      \<lparr>taskId = 2, taskDeps = [TaskRef 1], taskSubs = []\<rparr>,
      \<lparr>taskId = 3, taskDeps = [TaskRef 1, TaskRef 2], taskSubs = []\<rparr>]"

section \<open>Notions used in the statements\<close>

text \<open>
  The definitions of this section are not part of the program: they name what the
  claims speak about. A record is an object in the sense of the language: a value that
  is neither \<^verbatim>\<open>null\<close> nor primitive, so a JSON object or an array.
\<close>

fun isObject :: "jsval \<Rightarrow> bool" where
  "isObject (JObj ps) = True"
| "isObject (JArr xs ps) = True"
| "isObject v = False"

text \<open>
  The record the claims describe for position \<open>i\<close>: the id reassigned, the dependencies
  coerced, the status forced and the parent stamped, every other property kept.
\<close>

definition normalizedProps :: "int \<Rightarrow> int \<Rightarrow> nat \<Rightarrow> (string \<times> jsval) list \<Rightarrow> (string \<times> jsval) list" where
  "normalizedProps startId parentTaskId i ps =
     AList.update ''parentTaskId'' (JNum parentTaskId)
       (AList.update ''status'' (JStr ''pending'')
          (AList.update ''dependencies'' (coerceDependencies (map_of ps ''dependencies''))
             (AList.update ''id'' (JNum (startId + int i)) ps)))"

definition normalizedRecord :: "int \<Rightarrow> int \<Rightarrow> nat \<Rightarrow> jsval \<Rightarrow> jsval" where
  "normalizedRecord s p i x =
     (case x of
        JObj ps \<Rightarrow> JObj (normalizedProps s p i ps)
      | JArr xs ps \<Rightarrow> JArr xs (normalizedProps s p i ps)
      | _ \<Rightarrow> x)"

fun normalizedFrom :: "int \<Rightarrow> int \<Rightarrow> nat \<Rightarrow> jsval list \<Rightarrow> jsval list" where
  "normalizedFrom s p i [] = []"
| "normalizedFrom s p i (x # xs) =
     normalizedRecord s p i x # normalizedFrom s p (Suc i) xs"

text \<open>One correction entry for each position whose returned id disagrees.\<close>

fun correctionsFrom :: "int \<Rightarrow> nat \<Rightarrow> jsval list \<Rightarrow> event list" where
  "correctionsFrom s i [] = []"
| "correctionsFrom s i (x # xs) =
     (if getProp ''id'' x \<noteq> Some (JNum (s + int i))
      then [Log Warn (CorrectingSubtaskId (getProp ''id'' x) (s + int i))] else [])
     @ correctionsFrom s (Suc i) xs"

text \<open>
  The list parsed at step 2 of the subtask path, when that step succeeds; and the texts
  on which steps 1 and 2 fail, on either path.
\<close>

definition parsedSubtasks :: "parser \<Rightarrow> string \<Rightarrow> jsval list option" where
  "parsedSubtasks parse text =
     (case indexOf CHR ''['' text of
        None \<Rightarrow> None
      | Some i \<Rightarrow>
          (case lastIndexOf CHR '']'' text of
             None \<Rightarrow> None
           | Some j \<Rightarrow>
               if j < i then None
               else (case parse (substring i (j + 1) text) of
                       Some (JArr xs ps) \<Rightarrow> Some xs
                     | _ \<Rightarrow> None)))"

definition subtasksUnparsable :: "parser \<Rightarrow> string \<Rightarrow> bool" where
  "subtasksUnparsable parse text \<longleftrightarrow>
     (case indexOf CHR ''['' text of
        None \<Rightarrow> True
      | Some i \<Rightarrow>
          (case lastIndexOf CHR '']'' text of
             None \<Rightarrow> True
           | Some j \<Rightarrow> j < i \<or> parse (substring i (j + 1) text) = None))"

definition documentUnparsable :: "parser \<Rightarrow> string \<Rightarrow> bool" where
  "documentUnparsable parse text \<longleftrightarrow>
     parse text = None \<and>
     (case indexOf CHR ''{'' text of
        None \<Rightarrow> True
      | Some i \<Rightarrow>
          (case lastIndexOf CHR ''}'' text of
             None \<Rightarrow> True
           | Some j \<Rightarrow> j \<le> i \<or> parse (substring i (j + 1) text) = None))"

text \<open>
  The document parsed on the whole-document path, at step 1 from the text as it is or at
  step 2 from its slice between the first \<^verbatim>\<open>{\<close> and the last \<^verbatim>\<open>}\<close>; \<open>None\<close> when
  both steps fail.
\<close>

definition parsedDocument :: "parser \<Rightarrow> string \<Rightarrow> jsval option" where
  "parsedDocument parse text =
     (case parse text of
        Some v \<Rightarrow> Some v
      | None \<Rightarrow>
          (case indexOf CHR ''{'' text of
             None \<Rightarrow> None
           | Some i \<Rightarrow>
               (case lastIndexOf CHR ''}'' text of
                  None \<Rightarrow> None
                | Some j \<Rightarrow> if i < j then parse (substring i (j + 1) text) else None)))"

text \<open>The entries of a trace at level \<^verbatim>\<open>warn\<close> or \<^verbatim>\<open>error\<close>.\<close>

fun isWarning :: "event \<Rightarrow> bool" where
  "isWarning (Log l m) = (l = Warn \<or> l = Error)"
| "isWarning e = False"

definition countWarning :: "nat \<Rightarrow> nat \<Rightarrow> event list" where
  "countWarning expectedCount m =
     (if m \<noteq> expectedCount then [Log Warn (ExpectedSubtasksButParsed expectedCount m)] else [])"

text \<open>A fragment that ends where a line ends.\<close>

definition lineAligned :: "string \<Rightarrow> bool" where
  "lineAligned chunk \<longleftrightarrow> chunk = [] \<or> last chunk = CHR 0x0A"

text \<open>The waits of a trace, in order, and the number of attempts it records.\<close>

definition waits :: "event list \<Rightarrow> nat list" where
  "waits tr = concat (map (\<lambda>e. case e of Wait w \<Rightarrow> [w] | _ \<Rightarrow> []) tr)"

definition attempts :: "event list \<Rightarrow> nat" where
  "attempts tr = length (filter (\<lambda>e. e = Log Info CallingOllama) tr)"

text \<open>
  The content a parsed line of the stream carries: the string in the \<^verbatim>\<open>content\<close> field
  of its \<^verbatim>\<open>message\<close> field. The text a line of the stream contributes: its content
  when it is valid JSON and carries one, nothing otherwise.
\<close>

definition carriedContent :: "jsval \<Rightarrow> string option" where
  "carriedContent v =
     (case getProp ''message'' v of
        None \<Rightarrow> None
      | Some m \<Rightarrow> (case getProp ''content'' m of Some (JStr c) \<Rightarrow> Some c | _ \<Rightarrow> None))"

definition lineText :: "parser \<Rightarrow> string \<Rightarrow> string" where
  "lineText parse line =
     (case parse line of
        None \<Rightarrow> []
      | Some v \<Rightarrow> (case carriedContent v of None \<Rightarrow> [] | Some c \<Rightarrow> c))"

text \<open>
  The objects of the service's stream, as section 6 of the specification gives them: an
  object whose \<^verbatim>\<open>message.content\<close>, if it has one, is a string.
\<close>

definition contentIsText :: "jsval \<Rightarrow> bool" where
  "contentIsText v \<longleftrightarrow>
     (case getProp ''message'' v of
        None \<Rightarrow> True
      | Some m \<Rightarrow>
          (case getProp ''content'' m of None \<Rightarrow> True | Some (JStr c) \<Rightarrow> True | Some _ \<Rightarrow> False))"

text \<open>
  A line of the stream: it holds no newline, and when it is valid JSON it is not blank
  (\<^verbatim>\<open>JSON.parse\<close> rejects a blank text) and its value is such an object.
\<close>

definition streamLine :: "parser \<Rightarrow> string \<Rightarrow> bool" where
  "streamLine parse line \<longleftrightarrow>
     CHR 0x0A \<notin> set line \<and>
     (case parse line of None \<Rightarrow> True | Some v \<Rightarrow> trim line \<noteq> [] \<and> contentIsText v)"

text \<open>
  The failures that carry a signature the retry test reads: one of the two system error
  codes, or a message, a string, that contains \<^verbatim>\<open>timeout\<close> or \<^verbatim>\<open>network\<close> in any
  letter case.
\<close>

definition retrySignature :: "errorObj \<Rightarrow> bool" where
  "retrySignature e \<longleftrightarrow>
     code e = Some ''ECONNREFUSED'' \<or> code e = Some ''ENOTFOUND'' \<or>
     (case message e of
        Some (JStr m) \<Rightarrow>
          includesStr (toLowerCase m) ''timeout'' \<or> includesStr (toLowerCase m) ''network''
      | _ \<Rightarrow> False)"

text \<open>The waits of the retry loop from retry count \<open>j\<close> up to, not including, \<open>k\<close>.\<close>

definition retryWaits :: "nat \<Rightarrow> nat \<Rightarrow> nat list" where
  "retryWaits j k = map (\<lambda>i. (i + 1) * 5000) [j..<k]"

text \<open>Events that are neither a wait nor the entry that opens an attempt.\<close>

fun quiet :: "event \<Rightarrow> bool" where
  "quiet (Log l m) = (m \<noteq> CallingOllama)"
| "quiet e = False"

text \<open>In every reachable state at most one client has been constructed.\<close>

definition clientInv :: "clientState \<Rightarrow> bool" where
  "clientInv st \<longleftrightarrow> (case perplexity st of None \<Rightarrow> constructed st = 0 | Some c \<Rightarrow> constructed st = 1 \<and> clientId c = 0)"

section \<open>Concrete inputs\<close>

text \<open>
  A parser that knows finitely many texts. In each closed example below it is used only
  on texts on which it agrees with \<^verbatim>\<open>JSON.parse\<close>: the texts of its table parse to
  the values given, and every other text handed to it is not valid JSON.
\<close>

definition tableParser :: "(string \<times> jsval) list \<Rightarrow> parser" where
  "tableParser table = map_of table"

definition q :: "string \<Rightarrow> string" where
  \<comment> \<open>a text between double quotes\<close>
  "q s = dq # s @ [dq]"

text \<open>
  A model response to a subtask request for three subtasks that holds two records,
  with ids 7 and 9: \<^verbatim>\<open>Sure: [{"id":7,"dependencies":["1"]},{"id":9,"status":"done"}] Done.\<close>
\<close>

definition exampleSubtasksJson :: string where
  "exampleSubtasksJson =
     ''[{'' @ q ''id'' @ '':7,'' @ q ''dependencies'' @ '':['' @ q ''1'' @ '']},{''
       @ q ''id'' @ '':9,'' @ q ''status'' @ '':'' @ q ''done'' @ ''}]''"

definition exampleSubtasksText :: string where
  "exampleSubtasksText = ''Sure: '' @ exampleSubtasksJson @ '' Done.''"

definition exampleSubtasks :: "jsval list" where
  "exampleSubtasks =
     [JObj [(''id'', JNum 7), (''dependencies'', JArr [JStr ''1''] [])],
      JObj [(''id'', JNum 9), (''status'', JStr ''done'')]]"

text \<open>A record whose dependency is no number: \<^verbatim>\<open>[{"id":1,"dependencies":["abc"]}]\<close>\<close>

definition exampleNamedDependencyText :: string where
  "exampleNamedDependencyText =
     ''[{'' @ q ''id'' @ '':1,'' @ q ''dependencies'' @ '':['' @ q ''abc'' @ '']}]''"

definition exampleNamedDependency :: "jsval list" where
  "exampleNamedDependency =
     [JObj [(''id'', JNum 1), (''dependencies'', JArr [JStr ''abc''] [])]]"

text \<open>
  A document with one task, \<^verbatim>\<open>{"tasks":[{"id":1}]}\<close>, and the line of the stream
  that delivers it as one fragment of content:
  \<^verbatim>\<open>{"message":{"content":"{\"tasks\":[{\"id\":1}]}"}}\<close>
\<close>

definition exampleDocumentText :: string where
  "exampleDocumentText = ''{'' @ q ''tasks'' @ '':[{'' @ q ''id'' @ '':1}]}''"

definition exampleDocument :: jsval where
  "exampleDocument = JObj [(''tasks'', JArr [JObj [(''id'', JNum 1)]] [])]"

definition exampleLine :: string where
  "exampleLine =
     ''{'' @ q ''message'' @ '':{'' @ q ''content'' @ '':'' @ [dq] @ ''{'' @ [bs, dq] @ ''tasks''
       @ [bs, dq] @ '':[{'' @ [bs, dq] @ ''id'' @ [bs, dq] @ '':1}]}'' @ [dq] @ ''}}''"

text \<open>
  A list whose second element is \<^verbatim>\<open>null\<close>: \<^verbatim>\<open>[{"id":7,"title":"A"},null]\<close>
\<close>

definition exampleMixedText :: string where
  "exampleMixedText =
     ''[{'' @ q ''id'' @ '':7,'' @ q ''title'' @ '':'' @ q ''A'' @ ''},null]''"

definition exampleMixed :: "jsval list" where
  "exampleMixed = [JObj [(''id'', JNum 7), (''title'', JStr ''A'')], JNull]"

text \<open>
  The document between words, \<^verbatim>\<open>Here: {"tasks":[{"id":1}]} Done.\<close>, and the line of
  the stream that delivers this text.
\<close>

definition exampleWrappedText :: string where
  "exampleWrappedText = ''Here: '' @ exampleDocumentText @ '' Done.''"

definition exampleWrappedLine :: string where
  "exampleWrappedLine =
     ''{'' @ q ''message'' @ '':{'' @ q ''content'' @ '':'' @ [dq] @ ''Here: {'' @ [bs, dq]
       @ ''tasks'' @ [bs, dq] @ '':[{'' @ [bs, dq] @ ''id'' @ [bs, dq] @ '':1}]} Done.''
       @ [dq] @ ''}}''"

definition exampleParser :: parser where
  "exampleParser = tableParser
     [(exampleSubtasksJson, JArr exampleSubtasks []),
      (exampleNamedDependencyText, JArr exampleNamedDependency []),
      (exampleDocumentText, exampleDocument),
      (exampleLine, JObj [(''message'', JObj [(''content'', JStr exampleDocumentText)])]),
      (exampleMixedText, JArr exampleMixed []),
      (exampleWrappedLine, JObj [(''message'', JObj [(''content'', JStr exampleWrappedText)])])]"

text \<open>
  A stream of two lines, the line above and a line that is no JSON, each ended by a
  newline; the same stream cut into three fragments inside its lines, and cut into two
  fragments at the ends of its lines.
\<close>

definition exampleStreamLines :: "string list" where
  "exampleStreamLines = [exampleLine, ''not json'', []]"

definition exampleChunks :: "string list" where
  "exampleChunks =
     [take 20 exampleLine, drop 20 exampleLine @ [CHR 0x0A] @ ''not'', '' json'' @ [CHR 0x0A]]"

definition exampleFragments :: "string list" where
  "exampleFragments = [exampleLine @ [CHR 0x0A], ''not json'' @ [CHR 0x0A]]"

definition exampleConfig :: config where
  "exampleConfig = \<lparr>debug = False, ollamaApiUrl = ''http://localhost:11434'',
     ollamaModel = ''llama3'', projectName = None, today = ''2025-01-01'',
     engineNullRead = ''Cannot read properties of null (reading '' @ [sq] @ ''error'' @ [sq] @ '')''\<rparr>"

text \<open>
  An environment in which the first attempt is refused, the second times out and the
  third is answered with the line above. The messages are those node-fetch gives.
\<close>

definition exampleRefused :: errorObj where
  "exampleRefused =
     \<lparr>code = Some ''ECONNREFUSED'', etype = Some ''system'',
      message = Some (JStr ''request to http://localhost:11434/api/chat failed, reason: connect ECONNREFUSED 127.0.0.1:11434''),
      status = None\<rparr>"

definition exampleTimeout :: errorObj where
  "exampleTimeout =
     \<lparr>code = None, etype = Some ''request-timeout'',
      message = Some (JStr ''network timeout at: http://localhost:11434/api/chat''),
      status = None\<rparr>"

definition exampleWorld :: "nat \<Rightarrow> fetched" where
  "exampleWorld k =
     (if k = 0 then Rejected exampleRefused
      else if k = 1 then Rejected exampleTimeout
      else Response 200 None (NodeBody [exampleLine @ [CHR 0x0A]] None))"

text \<open>
  An environment in which the connection to the server times out at the first two
  attempts (the system error \<^verbatim>\<open>ETIMEDOUT\<close>) and the third is answered with the line
  above.
\<close>

definition exampleConnectTimedOut :: errorObj where
  "exampleConnectTimedOut =
     \<lparr>code = Some ''ETIMEDOUT'', etype = Some ''system'',
      message = Some (JStr ''request to http://localhost:11434/api/chat failed, reason: connect ETIMEDOUT 127.0.0.1:11434''),
      status = None\<rparr>"

definition exampleTimedOutWorld :: "nat \<Rightarrow> fetched" where
  "exampleTimedOutWorld k =
     (if k < 2 then Rejected exampleConnectTimedOut
      else Response 200 None (NodeBody [exampleLine @ [CHR 0x0A]] None))"

text \<open>
  An environment that answers 404 with the body the service sends for a missing model,
  \<^verbatim>\<open>{"error":"model 'llama3' not found, try pulling it first"}\<close>; and one that
  answers 404 with a body whose \<^verbatim>\<open>error\<close> field is an object,
  \<^verbatim>\<open>{"error":{"message":"model 'llama3' not found"}}\<close>.
\<close>

definition exampleMissingModel :: "nat \<Rightarrow> fetched" where
  "exampleMissingModel k =
     Response 404
       (Some (JObj [(''error'', JStr (''model '' @ [sq] @ ''llama3'' @ [sq]
                                        @ '' not found, try pulling it first''))]))
       (NodeBody [] None)"

definition exampleObjectError :: "nat \<Rightarrow> fetched" where
  "exampleObjectError k =
     Response 404
       (Some (JObj [(''error'',
                     JObj [(''message'', JStr (''model '' @ [sq] @ ''llama3'' @ [sq]
                                                 @ '' not found''))])]))
       (NodeBody [] None)"

text \<open>
  An environment in which the first attempt is refused and the second is answered 404
  for a missing model.
\<close>

definition exampleRefusedThenMissing :: "nat \<Rightarrow> fetched" where
  "exampleRefusedThenMissing k =
     (if k = 0 then Rejected exampleRefused else exampleMissingModel k)"

text \<open>
  Modelled from the spec: a collection of two tasks that depend on each other, which the
  interface of section 4.5 does not exclude.
\<close>

definition exampleCycle :: collection where
  "exampleCycle =
     [\<lparr>taskId = 1, taskDeps = [TaskRef 2], taskSubs = []\<rparr>,
      \<lparr>taskId = 2, taskDeps = [TaskRef 1], taskSubs = []\<rparr>]"

section \<open>Properties of the response normalizer\<close>

lemma fixQuoteEscapes_id: "fixQuoteEscapes prev xs = xs"
  by (induction prev xs rule: fixQuoteEscapes.induct) simp_all

lemma unescapeSingleQuotes_wellEscaped:
  "wellEscaped xs \<Longrightarrow> unescapeSingleQuotes xs = xs"
  by (induction xs rule: unescapeSingleQuotes.induct) (auto simp: recognised_def)

lemma escapeBackslashes_wellEscaped:
  "wellEscaped xs \<Longrightarrow> escapeBackslashes xs = xs"
  by (induction xs rule: escapeBackslashes.induct) auto

lemma processOllamaResponse_wellEscaped:
  "wellEscaped xs \<Longrightarrow> processOllamaResponse xs = xs"
  by (simp add: processOllamaResponse_def fixQuoteEscapes_id
      unescapeSingleQuotes_wellEscaped escapeBackslashes_wellEscaped)

text \<open>
  Claim C1, as the code has it: a text in which every backslash ends the text or is
  followed by one of \<^verbatim>\<open>" n t b f r /\<close> is returned unchanged; and whenever the text
  left by the first replacement has that shape, applying the normalizer twice gives the
  same text as applying it once.
\<close>

theorem processOllamaResponse_fixed_on_wellEscaped:
  "(wellEscaped x \<longrightarrow> processOllamaResponse x = x) \<and>
   (wellEscaped (unescapeSingleQuotes x) \<longrightarrow>
      processOllamaResponse (processOllamaResponse x) = processOllamaResponse x)"
proof (intro conjI impI)
  assume "wellEscaped x"
  then show "processOllamaResponse x = x"
    by (rule processOllamaResponse_wellEscaped)
next
  assume w: "wellEscaped (unescapeSingleQuotes x)"
  have "processOllamaResponse x = unescapeSingleQuotes x"
    by (simp add: processOllamaResponse_def fixQuoteEscapes_id
        escapeBackslashes_wellEscaped [OF w])
  with w show "processOllamaResponse (processOllamaResponse x) = processOllamaResponse x"
    by (simp add: processOllamaResponse_wellEscaped)
qed

theorem processOllamaResponse_fixed_witness:
  "wellEscaped [dq, CHR ''a'', bs, CHR ''n'', dq] \<and>
   processOllamaResponse [dq, CHR ''a'', bs, CHR ''n'', dq] = [dq, CHR ''a'', bs, CHR ''n'', dq] \<and>
   wellEscaped (unescapeSingleQuotes [CHR ''i'', CHR ''t'', bs, sq, CHR ''s'']) \<and>
   processOllamaResponse (processOllamaResponse [CHR ''i'', CHR ''t'', bs, sq, CHR ''s''])
     = ''it'' @ [sq] @ ''s''"
  using processOllamaResponse_fixed_on_wellEscaped [of "[dq, CHR ''a'', bs, CHR ''n'', dq]"]
    processOllamaResponse_fixed_on_wellEscaped [of "[CHR ''i'', CHR ''t'', bs, sq, CHR ''s'']"]
  by (simp add: recognised_def processOllamaResponse_def)

text \<open>
  Claim C1, as stated, fails: on the valid JSON text \<^verbatim>\<open>"\u0041"\<close> the normalizer
  doubles the backslash, and a second application doubles both backslashes again.
\<close>

theorem processOllamaResponse_not_idempotent:
  "processOllamaResponse (processOllamaResponse ([dq, bs] @ ''u0041'' @ [dq]))
     \<noteq> processOllamaResponse ([dq, bs] @ ''u0041'' @ [dq]) \<and>
   processOllamaResponse ([dq, bs] @ ''u0041'' @ [dq]) = [dq, bs, bs] @ ''u0041'' @ [dq]"
  by (simp add: processOllamaResponse_def recognised_def)

section \<open>Properties of the dependency graph manager\<close>

lemma successors_resolves: "b \<in> set (successors c a) \<Longrightarrow> entityDeps c a \<noteq> None"
  by (cases "entityDeps c a") (simp_all add: successors_def)

lemma entityDeps_allRefs: "entityDeps c r = Some ds \<Longrightarrow> r \<in> set (allRefs c)"
proof (cases r)
  case (TaskRef i)
  assume "entityDeps c r = Some ds"
  with TaskRef obtain t where "find (\<lambda>t. taskId t = i) c = Some t"
    by (auto split: option.splits)
  then have "t \<in> set c \<and> taskId t = i" by (auto simp: find_Some_iff)
  with TaskRef show ?thesis by (force simp: allRefs_def)
next
  case (SubtaskRef p i)
  assume "entityDeps c r = Some ds"
  with SubtaskRef obtain t s where "find (\<lambda>t. taskId t = p) c = Some t"
    and "find (\<lambda>s. subId s = i) (taskSubs t) = Some s"
    by (auto split: option.splits)
  then have "t \<in> set c \<and> taskId t = p \<and> s \<in> set (taskSubs t) \<and> subId s = i"
    by (auto simp: find_Some_iff)
  with SubtaskRef show ?thesis by (force simp: allRefs_def)
qed

lemma leaves_visited:
  assumes "(s, t) \<in> (edges c)\<^sup>*" "s \<in> V" "t \<notin> V"
  shows "\<exists>v w. v \<in> V \<and> w \<notin> V \<and> (v, w) \<in> edges c \<and> (w, t) \<in> (edges c)\<^sup>*"
  using assms
proof (induction rule: converse_rtrancl_induct)
  case base
  then show ?case by simp
next
  case (step y z)
  show ?case
  proof (cases "z \<in> V")
    case True
    with step show ?thesis by blast
  next
    case False
    with step show ?thesis by blast
  qed
qed

lemma reaches_complete:
  assumes "\<exists>s \<in> set stack. (s, target) \<in> (edges c)\<^sup>*"
    and "target \<notin> set visited"
    and "\<forall>v \<in> set visited. set (successors c v) \<subseteq> set visited \<union> set stack"
  shows "reaches c target stack visited"
  using assms
proof (induction c target stack visited rule: reaches.induct)
  case (1 c target visited)
  then show ?case by simp
next
  case (2 c target x stack visited)
  show ?case
  proof (cases "x = target")
    case True
    then show ?thesis by simp
  next
    case ne: False
    show ?thesis
    proof (cases "x \<in> set visited")
      case True
      have "\<exists>s \<in> set stack. (s, target) \<in> (edges c)\<^sup>*"
      proof -
        from "2.prems"(1) obtain s where s: "s \<in> set (x # stack)" "(s, target) \<in> (edges c)\<^sup>*"
          by blast
        show ?thesis
        proof (cases "s \<in> set visited")
          case sv: True
          from leaves_visited [OF s(2) sv "2.prems"(2)]
          obtain v w where vw: "v \<in> set visited" "w \<notin> set visited" "(v, w) \<in> edges c"
            "(w, target) \<in> (edges c)\<^sup>*" by blast
          with "2.prems"(3) have "w \<in> set visited \<union> set (x # stack)"
            by (auto simp: edges_def)
          with vw True have "w \<in> set stack" by auto
          with vw show ?thesis by blast
        next
          case False
          with s True show ?thesis by auto
        qed
      qed
      moreover have "\<forall>v \<in> set visited. set (successors c v) \<subseteq> set visited \<union> set stack"
        using "2.prems"(3) True by auto
      ultimately have "reaches c target stack visited"
        using "2.IH"(1) ne True "2.prems"(2) by blast
      with ne True show ?thesis by simp
    next
      case False
      have "\<exists>s \<in> set (successors c x @ stack). (s, target) \<in> (edges c)\<^sup>*"
      proof -
        from "2.prems"(1) obtain s where s: "s \<in> set (x # stack)" "(s, target) \<in> (edges c)\<^sup>*"
          by blast
        show ?thesis
        proof (cases "s = x")
          case True
          with s ne obtain w where "(x, w) \<in> edges c" "(w, target) \<in> (edges c)\<^sup>*"
            by (metis converse_rtranclE)
          then show ?thesis by (auto simp: edges_def)
        next
          case False
          with s show ?thesis by auto
        qed
      qed
      moreover have "target \<notin> set (x # visited)" using "2.prems"(2) ne by auto
      moreover have "\<forall>v \<in> set (x # visited).
          set (successors c v) \<subseteq> set (x # visited) \<union> set (successors c x @ stack)"
        using "2.prems"(3) by auto
      ultimately have "reaches c target (successors c x @ stack) (x # visited)"
        using "2.IH"(2) ne False by blast
      with ne False show ?thesis by simp
    qed
  qed
qed

lemma reaches_sound:
  "reaches c target stack visited \<Longrightarrow> \<exists>s \<in> set stack. (s, target) \<in> (edges c)\<^sup>*"
proof (induction c target stack visited rule: reaches.induct)
  case (1 c target visited)
  then show ?case by simp
next
  case (2 c target x stack visited)
  show ?case
  proof (cases "x = target")
    case True
    then show ?thesis by auto
  next
    case ne: False
    show ?thesis
    proof (cases "x \<in> set visited")
      case True
      with 2 ne show ?thesis by auto
    next
      case False
      with 2 ne obtain s where s: "s \<in> set (successors c x @ stack)" "(s, target) \<in> (edges c)\<^sup>*"
        by auto
      show ?thesis
      proof (cases "s \<in> set stack")
        case True
        with s show ?thesis by auto
      next
        case False
        with s have "(x, s) \<in> edges c" by (auto simp: edges_def)
        with s have "(x, target) \<in> (edges c)\<^sup>*" by (meson converse_rtrancl_into_rtrancl)
        then show ?thesis by auto
      qed
    qed
  qed
qed

lemma edges_source: "(a, b) \<in> edges c \<Longrightarrow> a \<in> set (allRefs c)"
  using successors_resolves [of b c a] entityDeps_allRefs [of c a] by (auto simp: edges_def)

lemma addDependency_cycle:
  assumes "entityDeps c r \<noteq> None" "entityDeps c d \<noteq> None" "r \<noteq> d"
    "d \<notin> set (successors c r)" "(d, r) \<in> (edges c)\<^sup>*"
  shows "addDependency c r d = (Some CycleError, c)"
proof -
  have "reaches c r [d] []"
    using assms(5) by (intro reaches_complete) auto
  with assms show ?thesis by (simp add: addDependency_def)
qed

text \<open>
  Claim C8, as section 4.5 has it: whenever \<open>r\<close> is reachable from \<open>d\<close> along existing
  dependency edges, \<open>addDependency c r d\<close> returns the collection as it was; it is
  rejected with \<open>CycleError\<close> whenever the checks that come before the search pass
  (\<open>r\<close> resolves, \<open>r\<close> and \<open>d\<close> differ, the edge from \<open>r\<close> to \<open>d\<close> is not yet
  there), and so in every collection that satisfies the invariants of the data model
  (every dependency resolves, no cycle).
\<close>

theorem addDependency_rejects_cycle:
  assumes reach: "(d, r) \<in> (edges c)\<^sup>+"
  shows "snd (addDependency c r d) = c \<and>
    (entityDeps c r \<noteq> None \<and> r \<noteq> d \<and> d \<notin> set (successors c r) \<longrightarrow>
       addDependency c r d = (Some CycleError, c)) \<and>
    (allResolve c \<and> acyclic (edges c) \<longrightarrow> addDependency c r d = (Some CycleError, c))"
proof -
  from reach obtain w where dw: "(d, w) \<in> edges c"
    by (meson tranclD)
  from reach obtain v where vr: "(v, r) \<in> edges c"
    by (meson tranclD2)
  from dw have d: "entityDeps c d \<noteq> None"
    by (auto simp: edges_def dest: successors_resolves)
  from reach have star: "(d, r) \<in> (edges c)\<^sup>*" by (rule trancl_into_rtrancl)
  have found: "reaches c r [d] []"
    using star by (intro reaches_complete) auto
  have general: "addDependency c r d = (Some CycleError, c)"
    if "entityDeps c r \<noteq> None" "r \<noteq> d" "d \<notin> set (successors c r)"
    using that d star by (intro addDependency_cycle) simp_all
  have unchanged: "snd (addDependency c r d) = c"
    using found by (simp add: addDependency_def del: reaches.simps)
  have invariant: "addDependency c r d = (Some CycleError, c)"
    if res: "allResolve c" and acy: "acyclic (edges c)"
  proof -
    from vr res have r: "entityDeps c r \<noteq> None"
      using edges_source [OF vr] by (auto simp: allResolve_def edges_def)
    from reach acy have ne: "r \<noteq> d" by (auto simp: acyclic_def)
    have "d \<notin> set (successors c r)"
    proof
      assume "d \<in> set (successors c r)"
      then have "(r, d) \<in> edges c" by (simp add: edges_def)
      with reach have "(r, r) \<in> (edges c)\<^sup>+" by (meson trancl_into_trancl2)
      with acy show False by (simp add: acyclic_def)
    qed
    with r ne show ?thesis by (intro general)
  qed
  from unchanged general invariant show ?thesis by blast
qed

lemma example_successors:
  "successors exampleTasks a =
     (if a = TaskRef 2 then [TaskRef 1] else if a = TaskRef 3 then [TaskRef 1, TaskRef 2] else [])"
  by (cases a) (auto simp: successors_def exampleTasks_def)

lemma example_acyclic: "acyclic (edges exampleTasks)"
proof (rule acyclicI_order [where f = "\<lambda>r. case r of TaskRef i \<Rightarrow> i | SubtaskRef p i \<Rightarrow> 0"])
  fix a b assume "(a, b) \<in> edges exampleTasks"
  then show "(case b of TaskRef i \<Rightarrow> i | SubtaskRef p i \<Rightarrow> 0)
      < (case a of TaskRef i \<Rightarrow> i | SubtaskRef p i \<Rightarrow> 0)"
    by (auto simp: edges_def example_successors split: if_splits)
qed

text \<open>
  The example of section 8: tasks 1, 2, 3 with edges 2 to 1 and 3 to 1 and 2, and the
  call \<open>addDependency(1, 3)\<close>.
\<close>

theorem addDependency_rejects_cycle_witness:
  "(TaskRef 3, TaskRef 1) \<in> (edges exampleTasks)\<^sup>+ \<and> allResolve exampleTasks \<and>
   acyclic (edges exampleTasks) \<and>
   addDependency exampleTasks (TaskRef 1) (TaskRef 3) = (Some CycleError, exampleTasks)"
proof -
  have e: "(TaskRef 3, TaskRef 1) \<in> (edges exampleTasks)\<^sup>+"
    by (rule r_into_trancl) (simp add: edges_def example_successors)
  have a: "allResolve exampleTasks"
    by (auto simp: allResolve_def example_successors split: if_splits)
      (simp_all add: exampleTasks_def)
  show ?thesis
    using e a example_acyclic addDependency_rejects_cycle [OF e] by simp
qed

text \<open>
  Claim C8, as stated for every collection, fails: the checks of section 4.5 that come
  before the search answer first. In the collection of two tasks that depend on each
  other, task 1 is reachable from task 2, and \<open>addDependency(1, 2)\<close> finds the edge
  from 1 to 2 already there and succeeds without an error.
\<close>

theorem addDependency_existing_edge_on_cycle:
  "(TaskRef 2, TaskRef 1) \<in> (edges exampleCycle)\<^sup>+ \<and>
   addDependency exampleCycle (TaskRef 1) (TaskRef 2) = (None, exampleCycle)"
proof
  have "successors exampleCycle (TaskRef 2) = [TaskRef 1]"
    by (simp add: successors_def exampleCycle_def)
  then show "(TaskRef 2, TaskRef 1) \<in> (edges exampleCycle)\<^sup>+"
    by (intro r_into_trancl) (simp add: edges_def)
  show "addDependency exampleCycle (TaskRef 1) (TaskRef 2) = (None, exampleCycle)"
    by (simp add: addDependency_def successors_def exampleCycle_def del: reaches.simps)
qed

section \<open>Properties of the subtask normalizer and of the fallback ladder\<close>

lemma normalizeSubtask_object:
  "normalizeSubtask s p i (JObj ps) =
     (if map_of ps ''id'' \<noteq> Some (JNum (s + int i))
      then [Log Warn (CorrectingSubtaskId (map_of ps ''id'') (s + int i))] else [],
      Inr (JObj (normalizedProps s p i ps)))"
  by (simp add: normalizeSubtask_def normalizedProps_def Let_def update_triv 
      update_conv')

lemma normalizeSubtask_array:
  "normalizeSubtask s p i (JArr xs ps) =
     (if map_of ps ''id'' \<noteq> Some (JNum (s + int i))
      then [Log Warn (CorrectingSubtaskId (map_of ps ''id'') (s + int i))] else [],
      Inr (JArr xs (normalizedProps s p i ps)))"
  by (simp add: normalizeSubtask_def normalizedProps_def Let_def update_triv 
      update_conv')

lemma normalizeSubtask_isObject:
  "isObject x \<Longrightarrow>
   normalizeSubtask s p i x =
     (if getProp ''id'' x \<noteq> Some (JNum (s + int i))
      then [Log Warn (CorrectingSubtaskId (getProp ''id'' x) (s + int i))] else [],
      Inr (normalizedRecord s p i x))"
  by (cases x) (simp_all add: normalizeSubtask_object normalizeSubtask_array normalizedRecord_def)

lemma mapSubtasks_objects:
  "\<forall>x \<in> set xs. isObject x \<Longrightarrow>
   mapSubtasks s p i xs = (correctionsFrom s i xs, Inr (normalizedFrom s p i xs))"
proof (induction xs arbitrary: i)
  case Nil
  then show ?case by simp
next
  case (Cons x xs)
  then have x: "isObject x" by simp
  from Cons have "\<forall>x \<in> set xs. isObject x" by simp
  from Cons.IH [OF this, of "Suc i"] show ?case
    by (simp add: normalizeSubtask_isObject [OF x])
qed

lemma length_normalizedFrom: "length (normalizedFrom s p i xs) = length xs"
  by (induction xs arbitrary: i) simp_all

lemma nth_normalizedFrom:
  "k < length xs \<Longrightarrow>
   normalizedFrom s p i xs ! k = normalizedRecord s p (i + k) (xs ! k)"
proof (induction xs arbitrary: i k)
  case Nil
  then show ?case by simp
next
  case (Cons x xs)
  show ?case
  proof (cases k)
    case 0
    then show ?thesis by simp
  next
    case (Suc j)
    with Cons.prems have "j < length xs" by simp
    from Cons.IH [OF this, of "Suc i"] Suc show ?thesis by simp
  qed
qed

lemma map_of_normalizedProps:
  "map_of (normalizedProps s p i ps) key =
     (if key = ''parentTaskId'' then Some (JNum p)
      else if key = ''status'' then Some (JStr ''pending'')
      else if key = ''dependencies'' then Some (coerceDependencies (map_of ps ''dependencies''))
      else if key = ''id'' then Some (JNum (s + int i))
      else map_of ps key)"
  by (simp add: normalizedProps_def update_conv')

lemma getProp_normalizedRecord:
  "isObject x \<Longrightarrow>
   getProp key (normalizedRecord s p i x) =
     (if key = ''parentTaskId'' then Some (JNum p)
      else if key = ''status'' then Some (JStr ''pending'')
      else if key = ''dependencies'' then Some (coerceDependencies (getProp ''dependencies'' x))
      else if key = ''id'' then Some (JNum (s + int i))
      else getProp key x)"
  by (cases x) (simp_all add: normalizedRecord_def map_of_normalizedProps)

lemma isObject_normalizedRecord: "isObject x \<Longrightarrow> isObject (normalizedRecord s p i x)"
  by (cases x) (simp_all add: normalizedRecord_def)

text \<open>\<^verbatim>\<open>parseInt(s, 10)\<close> reads the decimal text of an integer as that integer.\<close>

lemma digit_less_10:
  "d < 10 \<Longrightarrow> d = 0 \<or> d = 1 \<or> d = 2 \<or> d = 3 \<or> d = 4 \<or> d = 5 \<or> d = 6 \<or> d = 7 \<or> d = 8 \<or> d = (9::nat)"
  by arith

lemma digitChar_digit: "d < 10 \<Longrightarrow> isDigit (digitChar d) \<and> digitValue (digitChar d) = d"
  using digit_less_10 [of d] by (auto simp: digitChar_def isDigit_def digitValue_def)

lemma digitsValue_snoc: "digitsValue (ds @ [c]) = 10 * digitsValue ds + digitValue c"
  by (simp add: digitsValue_def)

lemma decimalNat_digits:
  "(\<forall>c \<in> set (decimalNat n). isDigit c) \<and> digitsValue (decimalNat n) = n"
proof (induction n rule: decimalNat.induct)
  case (1 n)
  show ?case
  proof (cases "n < 10")
    case True
    then show ?thesis
      using digitChar_digit [of n] by (subst (1 2) decimalNat.simps) (simp add: digitsValue_def)
  next
    case False
    with 1 have ih: "(\<forall>c \<in> set (decimalNat (n div 10)). isDigit c)"
      "digitsValue (decimalNat (n div 10)) = n div 10" by simp_all
    have m: "n mod 10 < 10" by simp
    from False ih digitChar_digit [OF m] show ?thesis
      by (subst (1 2) decimalNat.simps) (simp add: digitsValue_snoc)
  qed
qed

lemma decimalNat_nonempty: "decimalNat n \<noteq> []"
  by (subst decimalNat.simps) simp

lemma parseInt10_digits:
  "ds \<noteq> [] \<Longrightarrow> \<forall>c \<in> set ds. isDigit c \<Longrightarrow> parseInt10 ds = JNum (int (digitsValue ds))"
proof -
  assume ne: "ds \<noteq> []" and d: "\<forall>c \<in> set ds. isDigit c"
  have nw: "\<not> isWhitespace c" if "isDigit c" for c
    using that by (auto simp: isDigit_def isWhitespace_def)
  from ne obtain c r where ds: "ds = c # r" by (cases ds) auto
  with d nw have dw: "dropWhile isWhitespace ds = ds" by simp
  from ds d have c: "c \<noteq> CHR ''-''" "c \<noteq> CHR ''+''" by (auto simp: isDigit_def)
  from d have tw: "takeWhile isDigit ds = ds" by (simp add: takeWhile_eq_all_conv)
  show ?thesis
    unfolding parseInt10_def dw Let_def using c tw by (simp add: ds)
qed

lemma parseInt10_minus_digits:
  "ds \<noteq> [] \<Longrightarrow> \<forall>c \<in> set ds. isDigit c \<Longrightarrow>
   parseInt10 (CHR ''-'' # ds) = JNum (- int (digitsValue ds))"
proof -
  assume ne: "ds \<noteq> []" and d: "\<forall>c \<in> set ds. isDigit c"
  have w: "\<not> isWhitespace CHR ''-''" by (simp add: isWhitespace_def)
  from d have tw: "takeWhile isDigit ds = ds" by (simp add: takeWhile_eq_all_conv)
  have "parseInt10 (CHR ''-'' # ds) =
     (if takeWhile isDigit ds = [] then JNaN
      else JNum (- int (digitsValue (takeWhile isDigit ds))))"
    by (simp add: parseInt10_def Let_def w)
  then show ?thesis unfolding tw using ne by simp
qed

lemma parseInt10_numberToString: "parseInt10 (numberToString i) = JNum i"
  using decimalNat_digits decimalNat_nonempty
  by (simp add: numberToString_def parseInt10_digits parseInt10_minus_digits)

text \<open>
  \<^verbatim>\<open>parseInt(s, 10)\<close> on text that looks like a number: white space, a sign or none,
  decimal digits, and anything that does not go on with a digit.
\<close>

lemma parseInt10_shape:
  assumes ws: "\<forall>c \<in> set ws. isWhitespace c" and sg: "sig \<in> {[], ''-'', ''+''}"
    and ne: "ds \<noteq> []" and ds: "\<forall>c \<in> set ds. isDigit c"
    and rest: "rest = [] \<or> \<not> isDigit (hd rest)"
  shows "parseInt10 (ws @ sig @ ds @ rest)
     = JNum (if sig = ''-'' then - int (digitsValue ds) else int (digitsValue ds))"
proof -
  have nw: "\<not> isWhitespace c" if "isDigit c" for c
    using that by (auto simp: isDigit_def isWhitespace_def)
  have nd: "\<not> isDigit CHR ''-''" "\<not> isDigit CHR ''+''"
      "\<not> isWhitespace CHR ''-''" "\<not> isWhitespace CHR ''+''"
    by (simp_all add: isDigit_def isWhitespace_def)
  from ne obtain c r where c: "ds = c # r" by (cases ds) auto
  with ds have dc: "isDigit c" by simp
  have tw: "takeWhile isDigit (ds @ rest) = ds"
  proof -
    from rest have "takeWhile isDigit rest = []" by (cases rest) auto
    with ds show ?thesis by (simp add: takeWhile_append2)
  qed
  have dw: "dropWhile isWhitespace (ws @ sig @ ds @ rest) = sig @ ds @ rest"
  proof -
    have "dropWhile isWhitespace (sig @ ds @ rest) = sig @ ds @ rest"
      using sg nd nw [OF dc] by (auto simp: c)
    with ws show ?thesis by (simp add: dropWhile_append2)
  qed
  from dc nd have cs: "c \<noteq> CHR ''-''" "c \<noteq> CHR ''+''" by auto
  from sg consider "sig = []" | "sig = ''-''" | "sig = ''+''" by auto
  then show ?thesis
  proof cases
    case 1
    then have "parseInt10 (ws @ sig @ ds @ rest) =
       (if takeWhile isDigit (ds @ rest) = [] then JNaN
        else JNum (int (digitsValue (takeWhile isDigit (ds @ rest)))))"
      unfolding parseInt10_def dw using cs by (simp add: Let_def c)
    with 1 ne show ?thesis unfolding tw by simp
  next
    case 2
    then have "parseInt10 (ws @ sig @ ds @ rest) =
       (if takeWhile isDigit (ds @ rest) = [] then JNaN
        else JNum (- int (digitsValue (takeWhile isDigit (ds @ rest)))))"
      unfolding parseInt10_def dw by (simp add: Let_def)
    with 2 ne show ?thesis unfolding tw by simp
  next
    case 3
    then have "parseInt10 (ws @ sig @ ds @ rest) =
       (if takeWhile isDigit (ds @ rest) = [] then JNaN
        else JNum (int (digitsValue (takeWhile isDigit (ds @ rest)))))"
      unfolding parseInt10_def dw by (simp add: Let_def)
    with 3 ne show ?thesis unfolding tw by simp
  qed
qed

lemma coerceDependencies_array:
  "coerceDependencies (Some (JArr ds ps))
     = JArr (map (\<lambda>d. case d of JStr t \<Rightarrow> parseInt10 t | _ \<Rightarrow> d) ds) []"
proof -
  have "coerceDependency = (\<lambda>d. case d of JStr t \<Rightarrow> parseInt10 t | _ \<Rightarrow> d)"
    by (rule ext) (simp add: coerceDependency_def)
  then show ?thesis by (simp add: coerceDependencies_def)
qed

lemma coerceDependencies_other:
  "\<forall>ds ps. d \<noteq> Some (JArr ds ps) \<Longrightarrow> coerceDependencies d = JArr [] []"
  by (auto simp: coerceDependencies_def split: option.splits jsval.splits)

lemma parseSubtasksTry_parsed:
  "parsedSubtasks parse text = Some xs \<Longrightarrow>
   parseSubtasksTry parse text s n p =
     (countWarning n (length xs) @ fst (mapSubtasks s p 0 xs), snd (mapSubtasks s p 0 xs))"
proof -
  assume a: "parsedSubtasks parse text = Some xs"
  then obtain i j where i: "indexOf CHR ''['' text = Some i"
    and j: "lastIndexOf CHR '']'' text = Some j"
    by (auto simp: parsedSubtasks_def split: option.splits)
  with a have ij: "\<not> j < i"
    by (auto simp: parsedSubtasks_def split: if_splits)
  with a i j obtain ps where "parse (substring i (j + 1) text) = Some (JArr xs ps)"
    by (auto simp: parsedSubtasks_def split: option.splits jsval.splits)
  with i j ij show ?thesis
    by (simp add: parseSubtasksTry_def countWarning_def Let_def)
qed

lemma parseSubtasksFromText_objects:
  assumes "parsedSubtasks parse text = Some xs" "\<forall>x \<in> set xs. isObject x"
  shows "parseSubtasksFromText parse text s n p =
     (countWarning n (length xs) @ correctionsFrom s 0 xs, normalizedFrom s p 0 xs)"
  by (simp add: parseSubtasksFromText_def parseSubtasksTry_parsed [OF assms(1)]
      mapSubtasks_objects [OF assms(2)])

lemma parseSubtasksFromText_unparsable:
  "subtasksUnparsable parse text \<Longrightarrow>
   snd (parseSubtasksFromText parse text s n p) = fallbackSubtasks s n p"
  by (auto simp: subtasksUnparsable_def parseSubtasksFromText_def parseSubtasksTry_def
      split: option.splits if_splits)

lemma extractResponse_unparsable:
  "documentUnparsable parse text \<Longrightarrow>
   snd (extractResponse parse cfg n prdPath text) = fallbackDocument cfg n prdPath"
  by (auto simp: documentUnparsable_def extractResponse_def Let_def
      split: option.splits if_splits)

text \<open>
  Claim C4, as the code has it: when step 2 of the subtask path parses a list whose
  elements are all objects (JSON objects or arrays, none \<^verbatim>\<open>null\<close> or primitive), as
  many records come back, in their order, each an object; the record at position \<open>k\<close>
  has id \<open>s + k\<close>, status \<^verbatim>\<open>pending\<close> and parent \<open>p\<close>; when its dependencies were an
  array, they are the array of the same entries in the same order with every string
  entry replaced by \<^verbatim>\<open>parseInt(entry, 10)\<close> and every other entry kept, and otherwise
  they are the empty array; every other property is kept; and the trace holds one
  correction for each position whose returned id disagreed, behind the count warning if
  there is one. \<^verbatim>\<open>parseInt(entry, 10)\<close> of an entry made of white space, a sign or
  none, decimal digits and a rest that does not go on with a digit is the integer the
  digits denote, with the sign; so the decimal text of an integer gives that integer.
\<close>

theorem parseSubtasksFromText_normalizes:
  assumes "parsedSubtasks parse text = Some xs" and "\<forall>x \<in> set xs. isObject x"
  shows "length (snd (parseSubtasksFromText parse text s n p)) = length xs \<and>
    (\<forall>k < length xs.
       isObject (snd (parseSubtasksFromText parse text s n p) ! k) \<and>
       getProp ''id'' (snd (parseSubtasksFromText parse text s n p) ! k) = Some (JNum (s + int k)) \<and>
       getProp ''status'' (snd (parseSubtasksFromText parse text s n p) ! k) = Some (JStr ''pending'') \<and>
       getProp ''parentTaskId'' (snd (parseSubtasksFromText parse text s n p) ! k) = Some (JNum p) \<and>
       (\<forall>ds ps. getProp ''dependencies'' (xs ! k) = Some (JArr ds ps) \<longrightarrow>
          getProp ''dependencies'' (snd (parseSubtasksFromText parse text s n p) ! k)
            = Some (JArr (map (\<lambda>d. case d of JStr t \<Rightarrow> parseInt10 t | _ \<Rightarrow> d) ds) [])) \<and>
       ((\<forall>ds ps. getProp ''dependencies'' (xs ! k) \<noteq> Some (JArr ds ps)) \<longrightarrow>
          getProp ''dependencies'' (snd (parseSubtasksFromText parse text s n p) ! k)
            = Some (JArr [] [])) \<and>
       (\<forall>key. key \<notin> {''id'', ''status'', ''parentTaskId'', ''dependencies''} \<longrightarrow>
          getProp key (snd (parseSubtasksFromText parse text s n p) ! k) = getProp key (xs ! k))) \<and>
    fst (parseSubtasksFromText parse text s n p)
      = countWarning n (length xs) @ correctionsFrom s 0 xs \<and>
    ((\<forall>c \<in> set ws. isWhitespace c) \<and> sig \<in> {[], ''-'', ''+''} \<and> digits \<noteq> [] \<and>
     (\<forall>c \<in> set digits. isDigit c) \<and> (rest = [] \<or> \<not> isDigit (hd rest)) \<longrightarrow>
       parseInt10 (ws @ sig @ digits @ rest)
         = JNum (if sig = ''-'' then - int (digitsValue digits) else int (digitsValue digits))) \<and>
    digitsValue (decimalNat m) = m \<and>
    parseInt10 (numberToString i) = JNum i"
proof -
  note r = parseSubtasksFromText_objects [OF assms, of s n p]
  have g: "getProp key (normalizedFrom s p 0 xs ! k) =
     (if key = ''parentTaskId'' then Some (JNum p)
      else if key = ''status'' then Some (JStr ''pending'')
      else if key = ''dependencies'' then Some (coerceDependencies (getProp ''dependencies'' (xs ! k)))
      else if key = ''id'' then Some (JNum (s + int k))
      else getProp key (xs ! k))" if "k < length xs" for k key
  proof -
    from that assms(2) have "isObject (xs ! k)" by simp
    with that show ?thesis
      by (simp add: nth_normalizedFrom getProp_normalizedRecord)
  qed
  have o: "isObject (normalizedFrom s p 0 xs ! k)" if "k < length xs" for k
  proof -
    from that assms(2) have "isObject (xs ! k)" by simp
    with that show ?thesis
      by (simp add: nth_normalizedFrom isObject_normalizedRecord)
  qed
  have d1: "getProp ''dependencies'' (normalizedFrom s p 0 xs ! k)
            = Some (JArr (map (\<lambda>d. case d of JStr t \<Rightarrow> parseInt10 t | _ \<Rightarrow> d) ds) [])"
    if "k < length xs" "getProp ''dependencies'' (xs ! k) = Some (JArr ds ps)" for k ds ps
    using that by (simp add: g coerceDependencies_array)
  have d2: "getProp ''dependencies'' (normalizedFrom s p 0 xs ! k) = Some (JArr [] [])"
    if "k < length xs" "\<forall>ds ps. getProp ''dependencies'' (xs ! k) \<noteq> Some (JArr ds ps)" for k
    using that by (simp add: g coerceDependencies_other)
  have k: "getProp key (normalizedFrom s p 0 xs ! k) = getProp key (xs ! k)"
    if "k < length xs" "key \<notin> {''id'', ''status'', ''parentTaskId'', ''dependencies''}" for k key
    using that by (simp add: g)
  have shape: "(\<forall>c \<in> set ws. isWhitespace c) \<and> sig \<in> {[], ''-'', ''+''} \<and> digits \<noteq> [] \<and>
     (\<forall>c \<in> set digits. isDigit c) \<and> (rest = [] \<or> \<not> isDigit (hd rest)) \<longrightarrow>
       parseInt10 (ws @ sig @ digits @ rest)
         = JNum (if sig = ''-'' then - int (digitsValue digits) else int (digitsValue digits))"
    using parseInt10_shape [of ws sig digits rest] by blast
  have records: "length (snd (parseSubtasksFromText parse text s n p)) = length xs \<and>
    (\<forall>k < length xs.
       isObject (snd (parseSubtasksFromText parse text s n p) ! k) \<and>
       getProp ''id'' (snd (parseSubtasksFromText parse text s n p) ! k) = Some (JNum (s + int k)) \<and>
       getProp ''status'' (snd (parseSubtasksFromText parse text s n p) ! k) = Some (JStr ''pending'') \<and>
       getProp ''parentTaskId'' (snd (parseSubtasksFromText parse text s n p) ! k) = Some (JNum p) \<and>
       (\<forall>ds ps. getProp ''dependencies'' (xs ! k) = Some (JArr ds ps) \<longrightarrow>
          getProp ''dependencies'' (snd (parseSubtasksFromText parse text s n p) ! k)
            = Some (JArr (map (\<lambda>d. case d of JStr t \<Rightarrow> parseInt10 t | _ \<Rightarrow> d) ds) [])) \<and>
       ((\<forall>ds ps. getProp ''dependencies'' (xs ! k) \<noteq> Some (JArr ds ps)) \<longrightarrow>
          getProp ''dependencies'' (snd (parseSubtasksFromText parse text s n p) ! k)
            = Some (JArr [] [])) \<and>
       (\<forall>key. key \<notin> {''id'', ''status'', ''parentTaskId'', ''dependencies''} \<longrightarrow>
          getProp key (snd (parseSubtasksFromText parse text s n p) ! k) = getProp key (xs ! k))) \<and>
    fst (parseSubtasksFromText parse text s n p)
      = countWarning n (length xs) @ correctionsFrom s 0 xs"
    unfolding r using o d1 d2 k
    by (simp add: length_normalizedFrom g)
  from records shape show ?thesis
    using decimalNat_digits [of m] parseInt10_numberToString [of i] by blast
qed

theorem parseSubtasksFromText_normalizes_witness:
  "parsedSubtasks exampleParser exampleSubtasksText = Some exampleSubtasks \<and>
   parseSubtasksFromText exampleParser exampleSubtasksText 4 2 5 =
     ([Log Warn (CorrectingSubtaskId (Some (JNum 7)) 4),
       Log Warn (CorrectingSubtaskId (Some (JNum 9)) 5)],
      [JObj [(''id'', JNum 4), (''dependencies'', JArr [JNum 1] []),
             (''status'', JStr ''pending''), (''parentTaskId'', JNum 5)],
       JObj [(''id'', JNum 5), (''status'', JStr ''pending''),
             (''dependencies'', JArr [] []), (''parentTaskId'', JNum 5)]]) \<and>
   getProp ''dependencies'' (exampleSubtasks ! 0) = Some (JArr [JStr ''1''] []) \<and>
   getProp ''dependencies'' (snd (parseSubtasksFromText exampleParser exampleSubtasksText 4 2 5) ! 0)
     = Some (JArr [parseInt10 ''1''] []) \<and>
   getProp ''dependencies'' (exampleSubtasks ! 1) = None \<and>
   getProp ''dependencies'' (snd (parseSubtasksFromText exampleParser exampleSubtasksText 4 2 5) ! 1)
     = Some (JArr [] []) \<and>
   parseInt10 ('' '' @ ''+'' @ ''12'' @ ''abc'') = JNum 12 \<and>
   digitsValue (decimalNat 12) = 12 \<and>
   parseInt10 (numberToString 1) = JNum 1"
proof -
  have p: "parsedSubtasks exampleParser exampleSubtasksText = Some exampleSubtasks"
    by code_simp
  have o: "\<forall>x \<in> set exampleSubtasks. isObject x"
    by (simp add: exampleSubtasks_def)
  have r: "parseSubtasksFromText exampleParser exampleSubtasksText 4 2 5 =
     ([Log Warn (CorrectingSubtaskId (Some (JNum 7)) 4),
       Log Warn (CorrectingSubtaskId (Some (JNum 9)) 5)],
      [JObj [(''id'', JNum 4), (''dependencies'', JArr [JNum 1] []),
             (''status'', JStr ''pending''), (''parentTaskId'', JNum 5)],
       JObj [(''id'', JNum 5), (''status'', JStr ''pending''),
             (''dependencies'', JArr [] []), (''parentTaskId'', JNum 5)]])"
    by code_simp
  have l: "length exampleSubtasks = 2" by (simp add: exampleSubtasks_def)
  have d: "getProp ''dependencies'' (exampleSubtasks ! 0) = Some (JArr [JStr ''1''] [])"
    "getProp ''dependencies'' (exampleSubtasks ! 1) = None"
    by (simp_all add: exampleSubtasks_def)
  note t = parseSubtasksFromText_normalizes [OF p o, where s = 4 and n = 2 and p = 5
      and ws = "'' ''" and sig = "''+''" and digits = "''12''" and rest = "''abc''" and m = 12
      and i = 1]
  have v: "digitsValue ''12'' = 12" by code_simp
  from t l d have "getProp ''dependencies'' (snd (parseSubtasksFromText exampleParser exampleSubtasksText 4 2 5) ! 0)
     = Some (JArr [parseInt10 ''1''] [])"
    by simp
  moreover from t l d have "getProp ''dependencies'' (snd (parseSubtasksFromText exampleParser exampleSubtasksText 4 2 5) ! 1)
     = Some (JArr [] [])"
    by simp
  moreover from t have "parseInt10 (numberToString 1) = JNum 1" by simp
  moreover from t have "digitsValue (decimalNat 12) = 12" by simp
  moreover from t have "parseInt10 ('' '' @ ''+'' @ ''12'' @ ''abc'') = JNum 12"
    by (simp add: isWhitespace_def isDigit_def v)
  ultimately show ?thesis using p r d by simp
qed

text \<open>
  Claim C4, as stated, fails: a list that step 2 parses comes back as placeholders when
  one of its elements is no object. The list \<^verbatim>\<open>[{"id":7,"title":"A"},null]\<close> is
  parsed at step 2 and has two elements; reading \<^verbatim>\<open>subtask.id\<close> on \<^verbatim>\<open>null\<close> throws,
  and with start id 4 and three subtasks expected the result is the three placeholders
  with ids 4, 5 and 6: the first record, with its title, is not returned.
\<close>

theorem parseSubtasksFromText_null_element:
  "parsedSubtasks exampleParser exampleMixedText = Some exampleMixed \<and>
   length exampleMixed = 2 \<and>
   getProp ''title'' (exampleMixed ! 0) = Some (JStr ''A'') \<and>
   parseSubtasksFromText exampleParser exampleMixedText 4 3 5 =
     ([Log Warn (ExpectedSubtasksButParsed 3 2),
       Log Warn (CorrectingSubtaskId (Some (JNum 7)) 4),
       Log Error (ErrorParsingSubtasks TypeError),
       Log Warn CreatingFallbackSubtasks],
      [fallbackSubtask 4 5 0, fallbackSubtask 4 5 1, fallbackSubtask 4 5 2]) \<and>
   length (snd (parseSubtasksFromText exampleParser exampleMixedText 4 3 5)) = 3 \<and>
   getProp ''title'' (snd (parseSubtasksFromText exampleParser exampleMixedText 4 3 5) ! 0)
     = Some (JStr ''Subtask 4'')"
  by code_simp

text \<open>
  A string dependency that is no number: the record
  \<^verbatim>\<open>{"id":1,"dependencies":["abc"]}\<close> comes back with the dependency \<^verbatim>\<open>NaN\<close>, the
  value of \<^verbatim>\<open>parseInt("abc", 10)\<close>.
\<close>

lemma parseSubtasksFromText_named_dependency:
  "parsedSubtasks exampleParser exampleNamedDependencyText = Some exampleNamedDependency \<and>
   snd (parseSubtasksFromText exampleParser exampleNamedDependencyText 1 1 5) =
     [JObj [(''id'', JNum 1), (''dependencies'', JArr [JNaN] []),
            (''status'', JStr ''pending''), (''parentTaskId'', JNum 5)]]"
  by code_simp

lemma extractResponse_step1:
  "parse document = Some v \<Longrightarrow> extractResponse parse cfg n prdPath document = ([], v)"
  by (simp add: extractResponse_def)

lemma extractResponse_step2:
  "parse document = None \<Longrightarrow> indexOf CHR ''{'' document = Some i \<Longrightarrow>
   lastIndexOf CHR ''}'' document = Some j \<Longrightarrow> i < j \<Longrightarrow>
   parse (substring i (j + 1) document) = Some v \<Longrightarrow>
   extractResponse parse cfg n prdPath document =
     ([Log Debug FailedToParseResponse, Log Debug (JsonIndices (Some i) (Some j)),
       Log Debug (ExtractedJson (substring 0 500 (substring i (j + 1) document)))], v)"
  by (simp add: extractResponse_def Let_def)

lemma extractResponse_parsed:
  assumes "parsedDocument parse document = Some v"
  shows "snd (extractResponse parse cfg n prdPath document) = v \<and>
    filter isWarning (fst (extractResponse parse cfg n prdPath document)) = []"
proof (cases "parse document")
  case (Some u)
  with assms show ?thesis by (simp add: parsedDocument_def extractResponse_step1)
next
  case None
  with assms obtain i j where "indexOf CHR ''{'' document = Some i"
    "lastIndexOf CHR ''}'' document = Some j" "i < j"
    "parse (substring i (j + 1) document) = Some v"
    by (auto simp: parsedDocument_def split: option.splits if_splits)
  from extractResponse_step2 [OF None this] show ?thesis by simp
qed

lemma calm_assembleLine: "filter isWarning (fst (assembleLine parse dbg line)) = []"
  by (simp add: assembleLine_def Let_def split: option.splits sum.splits)

lemma calm_assembleText: "filter isWarning (fst (assembleText parse dbg t)) = []"
  by (simp add: assembleText_def Let_def filter_concat comp_def calm_assembleLine)

lemma calm_debugRaw: "filter isWarning (debugRaw dbg t) = []"
  by (simp add: debugRaw_def)

lemma calm_assembleBody: "filter isWarning (fst (assembleBody parse dbg b)) = []"
proof (cases b)
  case (NodeBody chunks err)
  then show ?thesis
    by (cases err)
      (simp_all add: assembleBody_def assembleNodeBody_def Let_def calm_assembleText calm_debugRaw)
next
  case (ReaderBody chunks err)
  then show ?thesis
    by (cases err)
      (simp_all add: assembleBody_def assembleReaderBody_def Let_def filter_concat comp_def
        calm_assembleText calm_debugRaw)
qed

lemma handleStreamingRequest_parsed:
  assumes "snd (assembleBody parse (debug cfg) b) = Inr t" and "200 \<le> st \<and> st \<le> 299"
    and "parsedDocument parse (processOllamaResponse t) = Some v"
  shows "snd (handleStreamingRequest parse cfg n prdPath (Response st bodyJson b)) = Inr v \<and>
    filter isWarning (fst (handleStreamingRequest parse cfg n prdPath (Response st bodyJson b))) = []"
proof -
  obtain l where a: "assembleBody parse (debug cfg) b = (l, Inr t)"
    using assms(1) by (cases "assembleBody parse (debug cfg) b") simp
  from calm_assembleBody [of parse "debug cfg" b] a have l: "filter isWarning l = []" by simp
  note e = extractResponse_parsed [OF assms(3), of cfg n prdPath]
  show ?thesis
    using assms(2) l e by (simp add: handleStreamingRequest_def a Let_def)
qed

text \<open>
  Claim C7, as the code has it: on the subtask path, when step 2 parses \<open>M\<close> records
  and \<open>M\<close> differs from the requested count, the trace starts with the count warning,
  nothing is thrown, and exactly the \<open>M\<close> parsed records are returned, normalized, with
  no fallback record. On the whole-document path no count is compared: a text that
  parses at step 1 is returned as it is and nothing is logged; a text that parses at
  step 2 only is returned as its slice parses, and the three entries logged are at
  level \<^verbatim>\<open>debug\<close>; so \<open>handleStreamingRequest\<close> returns the document parsed at step 1
  or 2 from the assembled and normalized text, whatever the number of its tasks, and its
  trace holds no entry at level \<^verbatim>\<open>warn\<close> or \<^verbatim>\<open>error\<close>.
\<close>

theorem parseSubtasksFromText_count_mismatch:
  "(parsedSubtasks parse text = Some xs \<and> (\<forall>x \<in> set xs. isObject x) \<and> length xs \<noteq> n \<longrightarrow>
      fst (parseSubtasksFromText parse text s n p)
        = Log Warn (ExpectedSubtasksButParsed n (length xs)) # correctionsFrom s 0 xs \<and>
      length (snd (parseSubtasksFromText parse text s n p)) = length xs \<and>
      snd (parseSubtasksFromText parse text s n p) = normalizedFrom s p 0 xs) \<and>
   (parse document = Some v \<longrightarrow> extractResponse parse cfg n prdPath document = ([], v)) \<and>
   (parse wrapped = None \<and> indexOf CHR ''{'' wrapped = Some i \<and>
    lastIndexOf CHR ''}'' wrapped = Some j \<and> i < j \<and>
    parse (substring i (j + 1) wrapped) = Some w \<longrightarrow>
      extractResponse parse cfg n prdPath wrapped =
        ([Log Debug FailedToParseResponse, Log Debug (JsonIndices (Some i) (Some j)),
          Log Debug (ExtractedJson (substring 0 500 (substring i (j + 1) wrapped)))], w)) \<and>
   (snd (assembleBody parse (debug cfg) b) = Inr t \<and> 200 \<le> st \<and> st \<le> 299 \<and>
    parsedDocument parse (processOllamaResponse t) = Some u \<longrightarrow>
      snd (handleStreamingRequest parse cfg n prdPath (Response st bodyJson b)) = Inr u \<and>
      filter isWarning (fst (handleStreamingRequest parse cfg n prdPath (Response st bodyJson b)))
        = [])"
proof (intro conjI impI)
  assume a: "parsedSubtasks parse text = Some xs \<and> (\<forall>x \<in> set xs. isObject x) \<and> length xs \<noteq> n"
  then have r: "parseSubtasksFromText parse text s n p =
     (countWarning n (length xs) @ correctionsFrom s 0 xs, normalizedFrom s p 0 xs)"
    by (intro parseSubtasksFromText_objects) simp_all
  from a show "fst (parseSubtasksFromText parse text s n p)
        = Log Warn (ExpectedSubtasksButParsed n (length xs)) # correctionsFrom s 0 xs"
    by (simp add: r countWarning_def)
  show "length (snd (parseSubtasksFromText parse text s n p)) = length xs"
    by (simp add: r length_normalizedFrom)
  show "snd (parseSubtasksFromText parse text s n p) = normalizedFrom s p 0 xs"
    by (simp add: r)
next
  assume "parse document = Some v"
  then show "extractResponse parse cfg n prdPath document = ([], v)"
    by (rule extractResponse_step1)
next
  assume "parse wrapped = None \<and> indexOf CHR ''{'' wrapped = Some i \<and>
    lastIndexOf CHR ''}'' wrapped = Some j \<and> i < j \<and>
    parse (substring i (j + 1) wrapped) = Some w"
  then show "extractResponse parse cfg n prdPath wrapped =
        ([Log Debug FailedToParseResponse, Log Debug (JsonIndices (Some i) (Some j)),
          Log Debug (ExtractedJson (substring 0 500 (substring i (j + 1) wrapped)))], w)"
    by (intro extractResponse_step2) simp_all
next
  assume a: "snd (assembleBody parse (debug cfg) b) = Inr t \<and> 200 \<le> st \<and> st \<le> 299 \<and>
    parsedDocument parse (processOllamaResponse t) = Some u"
  then have h: "snd (handleStreamingRequest parse cfg n prdPath (Response st bodyJson b)) = Inr u \<and>
    filter isWarning (fst (handleStreamingRequest parse cfg n prdPath (Response st bodyJson b))) = []"
    using handleStreamingRequest_parsed [where parse = parse and cfg = cfg and b = b and t = t
        and st = st and v = u and n = n and prdPath = prdPath and bodyJson = bodyJson]
    by simp
  from h show "snd (handleStreamingRequest parse cfg n prdPath (Response st bodyJson b)) = Inr u"
    by simp
  from h show "filter isWarning (fst (handleStreamingRequest parse cfg n prdPath (Response st bodyJson b))) = []"
    by simp
qed

theorem parseSubtasksFromText_count_mismatch_witness:
  "parsedSubtasks exampleParser exampleSubtasksText = Some exampleSubtasks \<and>
   length exampleSubtasks \<noteq> 3 \<and>
   fst (parseSubtasksFromText exampleParser exampleSubtasksText 4 3 5) =
     [Log Warn (ExpectedSubtasksButParsed 3 2),
      Log Warn (CorrectingSubtaskId (Some (JNum 7)) 4),
      Log Warn (CorrectingSubtaskId (Some (JNum 9)) 5)] \<and>
   length (snd (parseSubtasksFromText exampleParser exampleSubtasksText 4 3 5)) = 2 \<and>
   map (getProp ''id'') (snd (parseSubtasksFromText exampleParser exampleSubtasksText 4 3 5))
     = [Some (JNum 4), Some (JNum 5)] \<and>
   exampleParser exampleDocumentText = Some exampleDocument \<and>
   extractResponse exampleParser exampleConfig 3 ''prd.txt'' exampleDocumentText
     = ([], exampleDocument) \<and>
   exampleParser exampleWrappedText = None \<and>
   indexOf CHR ''{'' exampleWrappedText = Some 6 \<and>
   lastIndexOf CHR ''}'' exampleWrappedText = Some 25 \<and>
   substring 6 26 exampleWrappedText = exampleDocumentText \<and>
   extractResponse exampleParser exampleConfig 3 ''prd.txt'' exampleWrappedText
     = ([Log Debug FailedToParseResponse, Log Debug (JsonIndices (Some 6) (Some 25)),
         Log Debug (ExtractedJson exampleDocumentText)], exampleDocument) \<and>
   snd (assembleBody exampleParser (debug exampleConfig)
          (NodeBody [exampleWrappedLine @ [CHR 0x0A]] None)) = Inr exampleWrappedText \<and>
   parsedDocument exampleParser (processOllamaResponse exampleWrappedText) = Some exampleDocument \<and>
   snd (handleStreamingRequest exampleParser exampleConfig 3 ''prd.txt''
          (Response 200 None (NodeBody [exampleWrappedLine @ [CHR 0x0A]] None)))
     = Inr exampleDocument \<and>
   filter isWarning (fst (handleStreamingRequest exampleParser exampleConfig 3 ''prd.txt''
          (Response 200 None (NodeBody [exampleWrappedLine @ [CHR 0x0A]] None)))) = []"
proof -
  have parsed: "parsedSubtasks exampleParser exampleSubtasksText = Some exampleSubtasks"
    by code_simp
  have objs: "\<forall>x \<in> set exampleSubtasks. isObject x"
    by (simp add: exampleSubtasks_def)
  have len: "length exampleSubtasks \<noteq> 3" "length exampleSubtasks = 2"
    by (simp_all add: exampleSubtasks_def)
  have doc: "exampleParser exampleDocumentText = Some exampleDocument"
    by code_simp
  have corr: "correctionsFrom 4 0 exampleSubtasks =
     [Log Warn (CorrectingSubtaskId (Some (JNum 7)) 4),
      Log Warn (CorrectingSubtaskId (Some (JNum 9)) 5)]"
    by (simp add: exampleSubtasks_def)
  have ids: "map (getProp ''id'') (normalizedFrom 4 5 0 exampleSubtasks)
     = [Some (JNum 4), Some (JNum 5)]"
    by (simp add: exampleSubtasks_def normalizedRecord_def normalizedProps_def)
  have w1: "exampleParser exampleWrappedText = None" by code_simp
  have w2: "indexOf CHR ''{'' exampleWrappedText = Some 6" by code_simp
  have w3: "lastIndexOf CHR ''}'' exampleWrappedText = Some 25" by code_simp
  have w4: "substring 6 26 exampleWrappedText = exampleDocumentText" by code_simp
  have w5: "substring 0 500 exampleDocumentText = exampleDocumentText" by code_simp
  have a1: "snd (assembleBody exampleParser (debug exampleConfig)
          (NodeBody [exampleWrappedLine @ [CHR 0x0A]] None)) = Inr exampleWrappedText"
    by code_simp
  have a2: "parsedDocument exampleParser (processOllamaResponse exampleWrappedText)
      = Some exampleDocument"
    by code_simp
  show ?thesis
    using parsed objs len doc w1 w2 w3 a1 a2
      parseSubtasksFromText_count_mismatch [where parse = exampleParser
        and ?text = exampleSubtasksText and xs = exampleSubtasks and n = 3 and s = 4 and p = 5
        and document = exampleDocumentText and v = exampleDocument and cfg = exampleConfig
        and prdPath = "''prd.txt''" and wrapped = exampleWrappedText and i = 6 and j = 25
        and w = exampleDocument and b = "NodeBody [exampleWrappedLine @ [CHR 0x0A]] None"
        and t = exampleWrappedText and st = 200 and u = exampleDocument and bodyJson = None]
    by (simp add: corr ids length_normalizedFrom w4 w5)
qed

text \<open>
  Claim C7, as stated, fails on the whole-document path: with three tasks requested and
  a response whose document holds one task, \<open>handleStreamingRequest\<close> returns the
  document and its trace holds no warning. It also fails on the subtask path when an
  element of the parsed list is no object: with one subtask requested, the list
  \<^verbatim>\<open>[{"id":7,"title":"A"},null]\<close> of two elements draws the count warning, and then
  one placeholder is returned instead of the two elements.
\<close>

theorem handleStreamingRequest_no_count_warning:
  "handleStreamingRequest exampleParser exampleConfig 3 ''prd.txt''
     (Response 200 None (NodeBody [exampleLine @ [CHR 0x0A]] None))
     = ([Log Info ResponseReceived], Inr exampleDocument) \<and>
   getProp ''tasks'' exampleDocument = Some (JArr [JObj [(''id'', JNum 1)]] []) \<and>
   parsedSubtasks exampleParser exampleMixedText = Some exampleMixed \<and>
   length exampleMixed = 2 \<and>
   parseSubtasksFromText exampleParser exampleMixedText 4 1 5 =
     ([Log Warn (ExpectedSubtasksButParsed 1 2),
       Log Warn (CorrectingSubtaskId (Some (JNum 7)) 4),
       Log Error (ErrorParsingSubtasks TypeError),
       Log Warn CreatingFallbackSubtasks],
      [fallbackSubtask 4 5 0])"
  by code_simp

text \<open>
  Claim C2: when steps 1 and 2 fail on the text, the whole-document extractor returns a
  document whose \<^verbatim>\<open>tasks\<close> are exactly \<open>n\<close> placeholders and the subtask extractor
  returns exactly \<open>n\<close> placeholders; each placeholder has status \<^verbatim>\<open>pending\<close>, no
  dependencies, a title made from its position, and a description and details that say
  it was generated because parsing failed. Both functions return a value on every
  input: no error is part of their result type.
\<close>

theorem extractor_fallback:
  "(documentUnparsable parse text \<longrightarrow>
      (\<exists>meta. snd (extractResponse parse cfg n prdPath text)
          = JObj [(''tasks'', JArr (map fallbackTask [0..<n]) []), (''metadata'', meta)])) \<and>
   length (map fallbackTask [0..<n]) = n \<and>
   (\<forall>i < n.
      getProp ''status'' (fallbackTask i) = Some (JStr ''pending'') \<and>
      getProp ''dependencies'' (fallbackTask i) = Some (JArr [] []) \<and>
      getProp ''title'' (fallbackTask i) = Some (JStr (''Task '' @ decimalNat (i + 1))) \<and>
      getProp ''description'' (fallbackTask i)
        = Some (JStr (''Auto-generated fallback task '' @ decimalNat (i + 1))) \<and>
      getProp ''details'' (fallbackTask i)
        = Some (JStr ''This task was auto-generated due to parsing issues with the AI response.'')) \<and>
   (subtasksUnparsable parse text \<longrightarrow>
      snd (parseSubtasksFromText parse text startId n parentTaskId)
        = map (fallbackSubtask startId parentTaskId) [0..<n]) \<and>
   length (map (fallbackSubtask startId parentTaskId) [0..<n]) = n \<and>
   (\<forall>i < n.
      getProp ''status'' (fallbackSubtask startId parentTaskId i) = Some (JStr ''pending'') \<and>
      getProp ''dependencies'' (fallbackSubtask startId parentTaskId i) = Some (JArr [] []) \<and>
      getProp ''title'' (fallbackSubtask startId parentTaskId i)
        = Some (JStr (''Subtask '' @ numberToString (startId + int i))) \<and>
      getProp ''description'' (fallbackSubtask startId parentTaskId i)
        = Some (JStr ''Auto-generated fallback subtask'') \<and>
      getProp ''details'' (fallbackSubtask startId parentTaskId i)
        = Some (JStr ''This is a fallback subtask created because parsing failed. Please update with real details.''))"
proof (intro conjI impI allI)
  assume "documentUnparsable parse text"
  then show "\<exists>meta. snd (extractResponse parse cfg n prdPath text)
          = JObj [(''tasks'', JArr (map fallbackTask [0..<n]) []), (''metadata'', meta)]"
    by (simp add: extractResponse_unparsable fallbackDocument_def)
next
  assume "subtasksUnparsable parse text"
  then show "snd (parseSubtasksFromText parse text startId n parentTaskId)
        = map (fallbackSubtask startId parentTaskId) [0..<n]"
    by (simp add: parseSubtasksFromText_unparsable fallbackSubtasks_def)
qed (simp_all add: fallbackTask_def fallbackSubtask_def)

theorem extractor_fallback_witness:
  "documentUnparsable exampleParser ''No JSON here'' \<and>
   subtasksUnparsable exampleParser ''No JSON here'' \<and>
   subtasksUnparsable exampleParser [] \<and>
   (2::nat) < 3 \<and>
   getProp ''tasks'' (snd (extractResponse exampleParser exampleConfig 3 ''prd.txt'' ''No JSON here''))
     = Some (JArr [fallbackTask 0, fallbackTask 1, fallbackTask 2] []) \<and>
   getProp ''title'' (fallbackTask 2) = Some (JStr ''Task 3'') \<and>
   snd (parseSubtasksFromText exampleParser ''No JSON here'' 4 3 5)
     = [fallbackSubtask 4 5 0, fallbackSubtask 4 5 1, fallbackSubtask 4 5 2] \<and>
   snd (parseSubtasksFromText exampleParser [] 4 3 5)
     = [fallbackSubtask 4 5 0, fallbackSubtask 4 5 1, fallbackSubtask 4 5 2] \<and>
   getProp ''title'' (fallbackSubtask 4 5 2) = Some (JStr ''Subtask 6'')"
proof -
  have d: "documentUnparsable exampleParser ''No JSON here''"
    by code_simp
  have s: "subtasksUnparsable exampleParser ''No JSON here''"
    by (simp add: subtasksUnparsable_def)
  have e: "subtasksUnparsable exampleParser []"
    by (simp add: subtasksUnparsable_def)
  have u: "[0..<3] = [0, 1, 2]" by (simp add: upt_rec)
  have n: "decimalNat 3 = ''3''" "numberToString 6 = ''6''"
    by (simp_all add: numberToString_def decimalNat.simps digitChar_def)
  show ?thesis
    using d s e
      extractor_fallback [of exampleParser "''No JSON here''" exampleConfig 3 "''prd.txt''" 4 5]
      extractor_fallback [of exampleParser "[]" exampleConfig 3 "''prd.txt''" 4 5]
    by (auto simp: u n)
qed

text \<open>
  Claim C10: the fallback document has the tasks \<open>fallbackTask 0 .. fallbackTask (n - 1)\<close>
  with ids \<open>1..n\<close>, priority \<^verbatim>\<open>medium\<close> and no dependencies, and
  \<^verbatim>\<open>metadata.totalTasks\<close> is \<open>n\<close>; the fallback subtasks have the ids
  \<open>startId .. startId + n - 1\<close> and each carries the parent id.
\<close>

theorem fallback_ids_contiguous:
  "(\<exists>meta. fallbackDocument cfg n prdPath
       = JObj [(''tasks'', JArr (map fallbackTask [0..<n]) []), (''metadata'', meta)] \<and>
       getProp ''totalTasks'' meta = Some (JNum (int n))) \<and>
   map (getProp ''id'') (map fallbackTask [0..<n]) = map (\<lambda>i. Some (JNum (int i))) [1..<Suc n] \<and>
   map (getProp ''priority'') (map fallbackTask [0..<n]) = replicate n (Some (JStr ''medium'')) \<and>
   map (getProp ''dependencies'') (map fallbackTask [0..<n]) = replicate n (Some (JArr [] [])) \<and>
   map (getProp ''id'') (fallbackSubtasks startId n parentTaskId)
     = map (\<lambda>i. Some (JNum (startId + int i))) [0..<n] \<and>
   map (getProp ''parentTaskId'') (fallbackSubtasks startId n parentTaskId)
     = replicate n (Some (JNum parentTaskId))"
proof -
  have a: "map (\<lambda>i. Some (JNum (int i + 1))) [0..<n] = map (\<lambda>i. Some (JNum (int i))) [1..<Suc n]"
    by (induction n) simp_all
  have b: "map f [0..<n] = replicate n c" if "\<And>i. f i = c" for f :: "nat \<Rightarrow> jsval option" and c
    using that by (induction n) (simp_all add: replicate_append_same)
  show ?thesis
    by (simp add: fallbackDocument_def fallbackTask_def fallbackSubtasks_def fallbackSubtask_def
        comp_def a b)
qed

theorem fallback_ids_contiguous_witness:
  "map (getProp ''id'') (map fallbackTask [0..<3]) = [Some (JNum 1), Some (JNum 2), Some (JNum 3)] \<and>
   map (getProp ''id'') (fallbackSubtasks 4 3 5) = [Some (JNum 4), Some (JNum 5), Some (JNum 6)] \<and>
   map (getProp ''parentTaskId'') (fallbackSubtasks 4 3 5)
     = [Some (JNum 5), Some (JNum 5), Some (JNum 5)]"
proof -
  have u: "[1..<Suc 3] = [1, 2, 3]" "[0..<3] = [0, 1, 2]" by (simp_all add: upt_rec)
  have r: "replicate 3 x = [x, x, x]" for x :: "jsval option" by (simp add: numeral_3_eq_3)
  show ?thesis
    using fallback_ids_contiguous [of exampleConfig 3 "''prd.txt''" 4 5]
    unfolding u r by simp
qed

section \<open>Properties of the gateway\<close>

lemma waits_simps:
  "waits [] = []" "waits (Log l m # tr) = waits tr" "waits (Wait w # tr) = w # waits tr"
  "waits (ConsoleError c # tr) = waits tr"
  by (simp_all add: waits_def)

lemma attempts_simps:
  "attempts [] = 0"
  "attempts (Log l m # tr) = (if l = Info \<and> m = CallingOllama then Suc (attempts tr) else attempts tr)"
  "attempts (Wait w # tr) = attempts tr"
  "attempts (ConsoleError c # tr) = attempts tr"
  by (simp_all add: attempts_def)

lemma waits_append: "waits (a @ b) = waits a @ waits b"
  by (simp add: waits_def)

lemma attempts_append: "attempts (a @ b) = attempts a + attempts b"
  by (simp add: attempts_def)

lemma quiet_waits: "\<forall>e \<in> set tr. quiet e \<Longrightarrow> waits tr = [] \<and> attempts tr = 0"
proof (induction tr)
  case Nil
  then show ?case by (simp add: waits_def attempts_def)
next
  case (Cons e tr)
  then have "quiet e" by simp
  then obtain l m where "e = Log l m" "m \<noteq> CallingOllama" by (cases e) auto
  with Cons show ?case by (simp add: waits_def attempts_def)
qed

lemma quiet_assembleLine: "\<forall>e \<in> set (fst (assembleLine parse dbg line)). quiet e"
  by (simp add: assembleLine_def Let_def split: option.splits sum.splits)

lemma quiet_assembleText: "\<forall>e \<in> set (fst (assembleText parse dbg s)). quiet e"
  using quiet_assembleLine by (auto simp: assembleText_def Let_def)

lemma quiet_debugRaw: "\<forall>e \<in> set (debugRaw dbg s). quiet e"
  by (auto simp: debugRaw_def)

lemma quiet_assembleBody: "\<forall>e \<in> set (fst (assembleBody parse dbg b)). quiet e"
proof (cases b)
  case (NodeBody chunks err)
  then show ?thesis
    using quiet_assembleText quiet_debugRaw
    by (cases err) (auto simp: assembleBody_def assembleNodeBody_def Let_def)
next
  case (ReaderBody chunks err)
  then show ?thesis
    using quiet_assembleText quiet_debugRaw
    by (cases err) (auto simp: assembleBody_def assembleReaderBody_def Let_def)
qed

lemma quiet_extractResponse: "\<forall>e \<in> set (fst (extractResponse parse cfg n p t)). quiet e"
  by (simp add: extractResponse_def Let_def split: option.splits)

lemma quiet_handleStreamingRequest:
  "\<forall>e \<in> set (fst (handleStreamingRequest parse cfg n p f)). quiet e"
proof (cases f)
  case (Rejected err)
  then show ?thesis by (simp add: handleStreamingRequest_def)
next
  case (Response st be b)
  obtain l r where a: "assembleBody parse (debug cfg) b = (l, r)" by (cases "assembleBody parse (debug cfg) b")
  with quiet_assembleBody [of parse "debug cfg" b] have l: "\<forall>e \<in> set l. quiet e" by simp
  show ?thesis
  proof (cases r)
    case (Inl err)
    with Response a l show ?thesis by (simp add: handleStreamingRequest_def)
  next
    case (Inr t)
    with Response a l quiet_extractResponse show ?thesis
      by (auto simp: handleStreamingRequest_def Let_def)
  qed
qed

lemma handleStreamingRequest_waits:
  "handleStreamingRequest parse cfg n p f = (l, r) \<Longrightarrow> waits l = [] \<and> attempts l = 0"
  using quiet_handleStreamingRequest [of parse cfg n p f] quiet_waits [of l] by simp

lemma callClaude_success:
  "handleStreamingRequest parse cfg n p (world k) = (l, Inr v) \<Longrightarrow>
   callClaude parse cfg n p world k = (Log Info CallingOllama # l, Inr v)"
  by (simp add: callClaude.simps)

lemma callClaude_retry:
  "handleStreamingRequest parse cfg n p (world k) = (l, Inl e) \<Longrightarrow> k < 2 \<Longrightarrow>
   handleOllamaError cfg e = Inr m \<Longrightarrow> transient e = Inr True \<Longrightarrow>
   callClaude parse cfg n p world k =
     (Log Info CallingOllama # l @ [Log Error (UserMessage m),
        Log Info (WaitingBeforeRetry ((k + 1) * 5000 div 1000) (k + 1)), Wait ((k + 1) * 5000)]
        @ fst (callClaude parse cfg n p world (k + 1)),
      snd (callClaude parse cfg n p world (k + 1)))"
  by (subst callClaude.simps) (simp add: Let_def)

lemma callClaude_fail:
  "handleStreamingRequest parse cfg n p (world k) = (l, Inl e) \<Longrightarrow>
   handleOllamaError cfg e = Inr m \<Longrightarrow> (k < 2 \<longrightarrow> transient e = Inr False) \<Longrightarrow>
   callClaude parse cfg n p world k =
     (Log Info CallingOllama # l @ [Log Error (UserMessage m), ConsoleError m]
        @ (if debug cfg then [Log Debug (FullError e)] else []),
      Inl (ErrorWith m))"
  by (subst callClaude.simps) (simp add: Let_def)

lemma callClaude_escape_message:
  "handleStreamingRequest parse cfg n p (world k) = (l, Inl e) \<Longrightarrow>
   handleOllamaError cfg e = Inl x \<Longrightarrow>
   callClaude parse cfg n p world k = (Log Info CallingOllama # l, Inl (Escaped x))"
  by (subst callClaude.simps) simp

lemma callClaude_escape_test:
  "handleStreamingRequest parse cfg n p (world k) = (l, Inl e) \<Longrightarrow> k < 2 \<Longrightarrow>
   handleOllamaError cfg e = Inr m \<Longrightarrow> transient e = Inl x \<Longrightarrow>
   callClaude parse cfg n p world k =
     (Log Info CallingOllama # l @ [Log Error (UserMessage m)], Inl (Escaped x))"
  by (subst callClaude.simps) (simp add: Let_def)

lemma transient_retrySignature: "transient e = Inr True \<longleftrightarrow> retrySignature e"
  by (auto simp: transient_def retrySignature_def messageIncludes_def
      split: option.splits jsval.splits bool.splits)

lemma retrySignature_handled: "retrySignature e \<Longrightarrow> \<exists>m. handleOllamaError cfg e = Inr m"
  by (auto simp: handleOllamaError_def retrySignature_def messageIncludes_def Let_def
      split: option.splits jsval.splits bool.splits)

lemma retryWaits_Cons: "j < k \<Longrightarrow> retryWaits j k = (j + 1) * 5000 # retryWaits (j + 1) k"
  by (simp add: retryWaits_def upt_conv_Cons)

lemma callClaude_step:
  assumes "handleStreamingRequest parse cfg n p (world k) = (l, Inl e)" and "k < 2"
    and "retrySignature e"
  shows "snd (callClaude parse cfg n p world k) = snd (callClaude parse cfg n p world (k + 1)) \<and>
    waits (fst (callClaude parse cfg n p world k))
      = (k + 1) * 5000 # waits (fst (callClaude parse cfg n p world (k + 1))) \<and>
    attempts (fst (callClaude parse cfg n p world k))
      = Suc (attempts (fst (callClaude parse cfg n p world (k + 1))))"
proof -
  from retrySignature_handled [OF assms(3)] obtain m where m: "handleOllamaError cfg e = Inr m" ..
  from assms(3) have t: "transient e = Inr True" by (simp add: transient_retrySignature)
  note q = handleStreamingRequest_waits [OF assms(1)]
  note c = callClaude_retry [where world = world and k = k, OF assms(1,2) m t]
  show ?thesis
    unfolding c using q by (simp add: waits_simps waits_append attempts_simps attempts_append)
qed

text \<open>
  While the attempts fail with a signature the retry test reads, the call goes on to the
  next attempt after the wait of its retry count.
\<close>

lemma callClaude_prefix:
  assumes "\<forall>i. j \<le> i \<and> i < k \<longrightarrow>
      (\<exists>e. snd (handleStreamingRequest parse cfg n p (world i)) = Inl e \<and> retrySignature e)"
    and "j \<le> k" and "k \<le> 2"
  shows "snd (callClaude parse cfg n p world j) = snd (callClaude parse cfg n p world k) \<and>
    waits (fst (callClaude parse cfg n p world j))
      = retryWaits j k @ waits (fst (callClaude parse cfg n p world k)) \<and>
    attempts (fst (callClaude parse cfg n p world j))
      = (k - j) + attempts (fst (callClaude parse cfg n p world k))"
  using assms
proof (induction "k - j" arbitrary: j)
  case 0
  then have "j = k" by simp
  then show ?case by (simp add: retryWaits_def)
next
  case (Suc d)
  then have jk: "j < k" by simp
  with Suc.prems obtain e where e: "snd (handleStreamingRequest parse cfg n p (world j)) = Inl e"
    and r: "retrySignature e" by auto
  obtain l where h: "handleStreamingRequest parse cfg n p (world j) = (l, Inl e)"
    using e by (cases "handleStreamingRequest parse cfg n p (world j)") simp
  from jk Suc.prems have j2: "j < 2" by simp
  note s = callClaude_step [where world = world and k = j, OF h j2 r]
  have "d = k - (j + 1)" using Suc.hyps(2) by simp
  moreover have "\<forall>i. j + 1 \<le> i \<and> i < k \<longrightarrow>
      (\<exists>e. snd (handleStreamingRequest parse cfg n p (world i)) = Inl e \<and> retrySignature e)"
    using Suc.prems(1) by simp
  moreover have "j + 1 \<le> k" using jk by simp
  ultimately have ih: "snd (callClaude parse cfg n p world (j + 1)) = snd (callClaude parse cfg n p world k) \<and>
    waits (fst (callClaude parse cfg n p world (j + 1)))
      = retryWaits (j + 1) k @ waits (fst (callClaude parse cfg n p world k)) \<and>
    attempts (fst (callClaude parse cfg n p world (j + 1)))
      = (k - (j + 1)) + attempts (fst (callClaude parse cfg n p world k))"
    using Suc.hyps(1) Suc.prems(3) by blast
  from jk show ?case
    using s ih by (simp add: retryWaits_Cons)
qed

text \<open>
  Whatever the environment answers, a call made with retry count \<open>k\<close> waits at most
  \<open>2 - k\<close> times, for the times of the retry counts from \<open>k\<close> on, and makes one attempt
  more than it waits.
\<close>

lemma callClaude_bound:
  "waits (fst (callClaude parse cfg n p world k))
     = retryWaits k (k + length (waits (fst (callClaude parse cfg n p world k)))) \<and>
   length (waits (fst (callClaude parse cfg n p world k))) \<le> 2 - k \<and>
   attempts (fst (callClaude parse cfg n p world k))
     = Suc (length (waits (fst (callClaude parse cfg n p world k))))"
proof (induction "2 - k" arbitrary: k)
  case 0
  obtain l r where h: "handleStreamingRequest parse cfg n p (world k) = (l, r)"
    by (cases "handleStreamingRequest parse cfg n p (world k)")
  note q = handleStreamingRequest_waits [OF h]
  from 0 have k: "\<not> k < 2" by simp
  have "waits (fst (callClaude parse cfg n p world k)) = [] \<and>
    attempts (fst (callClaude parse cfg n p world k)) = 1"
  proof (cases r)
    case (Inr v)
    with h q show ?thesis
      by (simp add: callClaude_success [where world = world and k = k] waits_simps attempts_simps)
  next
    case (Inl e)
    show ?thesis
    proof (cases "handleOllamaError cfg e")
      case (Inl x)
      from callClaude_escape_message [where world = world and k = k, OF h [unfolded \<open>r = Inl e\<close>] Inl] q
      show ?thesis by (simp add: waits_simps attempts_simps)
    next
      case (Inr m)
      from callClaude_fail [where world = world and k = k, OF h [unfolded \<open>r = Inl e\<close>] Inr] k q
      show ?thesis by (simp add: waits_simps attempts_simps waits_append attempts_append)
    qed
  qed
  then show ?case by (simp add: retryWaits_def)
next
  case (Suc d)
  then have k: "k < 2" by simp
  obtain l r where h: "handleStreamingRequest parse cfg n p (world k) = (l, r)"
    by (cases "handleStreamingRequest parse cfg n p (world k)")
  note q = handleStreamingRequest_waits [OF h]
  have stop: ?case if "waits (fst (callClaude parse cfg n p world k)) = []"
      "attempts (fst (callClaude parse cfg n p world k)) = 1"
    using that by (simp add: retryWaits_def)
  show ?case
  proof (cases r)
    case (Inr v)
    with h q show ?thesis
      by (intro stop)
        (simp_all add: callClaude_success [where world = world and k = k] waits_simps attempts_simps)
  next
    case (Inl e)
    note he = h [unfolded Inl]
    show ?thesis
    proof (cases "handleOllamaError cfg e")
      case (Inl x)
      from callClaude_escape_message [where world = world and k = k, OF he Inl] q
      show ?thesis by (intro stop) (simp_all add: waits_simps attempts_simps)
    next
      case (Inr m)
      show ?thesis
      proof (cases "transient e")
        case (Inl x)
        from callClaude_escape_test [where world = world and k = k, OF he k Inr Inl] q
        show ?thesis
          by (intro stop) (simp_all add: waits_simps attempts_simps waits_append attempts_append)
      next
        case t: (Inr again)
        show ?thesis
        proof (cases again)
          case False
          with t have "k < 2 \<longrightarrow> transient e = Inr False" by simp
          from callClaude_fail [where world = world and k = k, OF he Inr this] q
          show ?thesis
            by (intro stop) (simp_all add: waits_simps attempts_simps waits_append attempts_append)
        next
          case True
          with t have "retrySignature e" by (simp add: transient_retrySignature)
          note s = callClaude_step [where world = world and k = k, OF he k this]
          have "d = 2 - (k + 1)" using Suc.hyps(2) by simp
          note ih = Suc.hyps(1) [OF this]
          let ?w = "waits (fst (callClaude parse cfg n p world (k + 1)))"
          have "retryWaits k (k + Suc (length ?w)) = (k + 1) * 5000 # retryWaits (k + 1) (k + 1 + length ?w)"
            by (simp add: retryWaits_Cons)
          moreover have "Suc (length ?w) \<le> 2 - k" using ih k by arith
          ultimately show ?thesis
            using ih s by simp
        qed
      qed
    qed
  qed
qed

lemma retryWaits_0: "m \<le> 2 \<Longrightarrow> retryWaits 0 m \<in> {[], [5000], [5000, 10000]}"
proof -
  assume "m \<le> 2"
  then have "m = 0 \<or> m = 1 \<or> m = 2" by arith
  then show ?thesis by (auto simp: retryWaits_def upt_rec)
qed

text \<open>
  Claim C3, as the code has it: when the first two attempts fail with an error that
  carries a signature the retry test reads (the code \<^verbatim>\<open>ECONNREFUSED\<close> or
  \<^verbatim>\<open>ENOTFOUND\<close>, or a message that contains \<^verbatim>\<open>timeout\<close> or \<^verbatim>\<open>network\<close> in any letter
  case) and the third succeeds, \<open>callClaude\<close> returns the third attempt's value after
  exactly the waits of 5000 and 10000 milliseconds and three attempts; and, whatever the
  environment answers, the waits of a call started with retry count 0 are none, or 5000,
  or 5000 and then 10000 milliseconds, and it makes one attempt more than it waits, so at
  most three.
\<close>

theorem callClaude_retries:
  "(snd (handleStreamingRequest parse cfg n p (world 0)) = Inl e0 \<and> retrySignature e0 \<and>
    snd (handleStreamingRequest parse cfg n p (world 1)) = Inl e1 \<and> retrySignature e1 \<and>
    snd (handleStreamingRequest parse cfg n p (world 2)) = Inr v \<longrightarrow>
      snd (callClaude parse cfg n p world 0) = Inr v \<and>
      waits (fst (callClaude parse cfg n p world 0)) = [5000, 10000] \<and>
      attempts (fst (callClaude parse cfg n p world 0)) = 3) \<and>
   waits (fst (callClaude parse cfg n p world 0)) \<in> {[], [5000], [5000, 10000]} \<and>
   length (waits (fst (callClaude parse cfg n p world 0))) \<le> 2 \<and>
   attempts (fst (callClaude parse cfg n p world 0))
     = Suc (length (waits (fst (callClaude parse cfg n p world 0)))) \<and>
   attempts (fst (callClaude parse cfg n p world 0)) \<le> 3"
proof (intro conjI impI)
  assume a: "snd (handleStreamingRequest parse cfg n p (world 0)) = Inl e0 \<and> retrySignature e0 \<and>
    snd (handleStreamingRequest parse cfg n p (world 1)) = Inl e1 \<and> retrySignature e1 \<and>
    snd (handleStreamingRequest parse cfg n p (world 2)) = Inr v"
  obtain l2 where h2: "handleStreamingRequest parse cfg n p (world 2) = (l2, Inr v)"
    using a by (cases "handleStreamingRequest parse cfg n p (world 2)") simp
  note q = handleStreamingRequest_waits [OF h2]
  have c2: "callClaude parse cfg n p world 2 = (Log Info CallingOllama # l2, Inr v)"
    using h2 by (rule callClaude_success [where world = world and k = 2])
  have "\<forall>i. 0 \<le> i \<and> i < 2 \<longrightarrow>
      (\<exists>e. snd (handleStreamingRequest parse cfg n p (world i)) = Inl e \<and> retrySignature e)"
  proof (intro allI impI)
    fix i :: nat assume "0 \<le> i \<and> i < 2"
    then have "i = 0 \<or> i = 1" by arith
    with a show "\<exists>e. snd (handleStreamingRequest parse cfg n p (world i)) = Inl e \<and> retrySignature e"
      by auto
  qed
  note pre = callClaude_prefix [OF this, of ]
  from pre have r: "snd (callClaude parse cfg n p world 0) = snd (callClaude parse cfg n p world 2)"
      "waits (fst (callClaude parse cfg n p world 0))
         = retryWaits 0 2 @ waits (fst (callClaude parse cfg n p world 2))"
      "attempts (fst (callClaude parse cfg n p world 0))
         = (2 - 0) + attempts (fst (callClaude parse cfg n p world 2))"
    by simp_all
  have w: "retryWaits 0 2 = [5000, 10000]" by (simp add: retryWaits_def upt_rec)
  show "snd (callClaude parse cfg n p world 0) = Inr v" by (simp add: r c2)
  show "waits (fst (callClaude parse cfg n p world 0)) = [5000, 10000]"
    using q by (simp add: r c2 w waits_simps)
  show "attempts (fst (callClaude parse cfg n p world 0)) = 3"
    using q by (simp add: r c2 attempts_simps)
next
  note b = callClaude_bound [of parse cfg n p world 0]
  from b have "waits (fst (callClaude parse cfg n p world 0))
     = retryWaits 0 (length (waits (fst (callClaude parse cfg n p world 0))))" by simp
  moreover from b have l: "length (waits (fst (callClaude parse cfg n p world 0))) \<le> 2" by simp
  ultimately show "waits (fst (callClaude parse cfg n p world 0)) \<in> {[], [5000], [5000, 10000]}"
    using retryWaits_0 [OF l] by simp
  from l show "length (waits (fst (callClaude parse cfg n p world 0))) \<le> 2" .
  from b show "attempts (fst (callClaude parse cfg n p world 0))
     = Suc (length (waits (fst (callClaude parse cfg n p world 0))))" by simp
  with l show "attempts (fst (callClaude parse cfg n p world 0)) \<le> 3" by simp
qed

theorem callClaude_retries_witness:
  "snd (handleStreamingRequest exampleParser exampleConfig 3 ''prd.txt'' (exampleWorld 0))
     = Inl exampleRefused \<and>
   code exampleRefused = Some ''ECONNREFUSED'' \<and>
   snd (handleStreamingRequest exampleParser exampleConfig 3 ''prd.txt'' (exampleWorld 1))
     = Inl exampleTimeout \<and>
   message exampleTimeout = Some (JStr ''network timeout at: http://localhost:11434/api/chat'') \<and>
   snd (handleStreamingRequest exampleParser exampleConfig 3 ''prd.txt'' (exampleWorld 2))
     = Inr exampleDocument \<and>
   snd (callClaude exampleParser exampleConfig 3 ''prd.txt'' exampleWorld 0) = Inr exampleDocument \<and>
   waits (fst (callClaude exampleParser exampleConfig 3 ''prd.txt'' exampleWorld 0)) = [5000, 10000] \<and>
   attempts (fst (callClaude exampleParser exampleConfig 3 ''prd.txt'' exampleWorld 0)) = 3"
proof -
  have h0: "snd (handleStreamingRequest exampleParser exampleConfig 3 ''prd.txt'' (exampleWorld 0))
     = Inl exampleRefused"
    by (simp add: exampleWorld_def handleStreamingRequest_def)
  have h1: "snd (handleStreamingRequest exampleParser exampleConfig 3 ''prd.txt'' (exampleWorld 1))
     = Inl exampleTimeout"
    by (simp add: exampleWorld_def handleStreamingRequest_def)
  have h2: "snd (handleStreamingRequest exampleParser exampleConfig 3 ''prd.txt'' (exampleWorld 2))
     = Inr exampleDocument"
    by code_simp
  have c0: "retrySignature exampleRefused" by (simp add: retrySignature_def exampleRefused_def)
  have c1: "retrySignature exampleTimeout" by code_simp
  have f: "code exampleRefused = Some ''ECONNREFUSED''"
    "message exampleTimeout = Some (JStr ''network timeout at: http://localhost:11434/api/chat'')"
    by (simp_all add: exampleRefused_def exampleTimeout_def)
  show ?thesis
    using h0 h1 h2 c0 c1 f
      callClaude_retries [where parse = exampleParser and cfg = exampleConfig and n = 3
        and p = "''prd.txt''" and world = exampleWorld and ?e0.0 = exampleRefused
        and ?e1.0 = exampleTimeout and v = exampleDocument]
    by simp
qed

text \<open>
  Claim C3, as stated, fails: a connection that times out is a connectivity or timeout
  failure, but its error carries the code \<^verbatim>\<open>ETIMEDOUT\<close> and a message without the word
  \<^verbatim>\<open>timeout\<close>, which the retry test does not read. With the first two attempts
  failing so and a third that would succeed, \<open>callClaude\<close> fails at the first attempt,
  without a wait.
\<close>

theorem callClaude_connect_timeout_not_retried:
  "snd (handleStreamingRequest exampleParser exampleConfig 3 ''prd.txt'' (exampleTimedOutWorld 0))
     = Inl exampleConnectTimedOut \<and>
   snd (handleStreamingRequest exampleParser exampleConfig 3 ''prd.txt'' (exampleTimedOutWorld 1))
     = Inl exampleConnectTimedOut \<and>
   snd (handleStreamingRequest exampleParser exampleConfig 3 ''prd.txt'' (exampleTimedOutWorld 2))
     = Inr exampleDocument \<and>
   snd (callClaude exampleParser exampleConfig 3 ''prd.txt'' exampleTimedOutWorld 0)
     = Inl (ErrorWith ''Error communicating with Ollama: request to http://localhost:11434/api/chat failed, reason: connect ETIMEDOUT 127.0.0.1:11434'') \<and>
   waits (fst (callClaude exampleParser exampleConfig 3 ''prd.txt'' exampleTimedOutWorld 0)) = [] \<and>
   attempts (fst (callClaude exampleParser exampleConfig 3 ''prd.txt'' exampleTimedOutWorld 0)) = 1"
  by code_simp

text \<open>
  A response that is not ok, whose body gives the failure a string for its message, and
  whose message has no signature the retry test reads: the call made for this attempt,
  whatever its retry count, fails with the message \<open>handleOllamaError\<close> gives for the
  status, with no wait and no further attempt.
\<close>

lemma httpFailureMessage_nonempty: "httpFailureMessage st bodyJson = JStr m \<Longrightarrow> m \<noteq> []"
  by (auto simp: httpFailureMessage_def decimalNat_nonempty split: option.splits if_splits)

lemma callClaude_http_failure:
  assumes "world k = Response st bodyJson b" and "\<not> (200 \<le> st \<and> st \<le> 299)" and "st \<noteq> 0"
    and "bodyJson \<noteq> Some JNull" and "httpFailureMessage st bodyJson = JStr m"
    and "\<not> includesStr (toLowerCase m) ''timeout''" and "\<not> includesStr (toLowerCase m) ''network''"
  shows "\<exists>msg. snd (callClaude parse cfg n p world k) = Inl (ErrorWith msg) \<and>
    waits (fst (callClaude parse cfg n p world k)) = [] \<and>
    attempts (fst (callClaude parse cfg n p world k)) = 1 \<and>
    msg =
      (if st = 404 then
         ''Model '' @ [dq] @ ollamaModel cfg @ [dq]
           @ '' not found. You may need to run: ollama pull '' @ ollamaModel cfg
       else if st = 400 then ''Bad request to Ollama API. The prompt might be malformed.''
       else if st = 500 then ''Ollama server error. Check the Ollama logs for more details.''
       else ''Ollama API error ('' @ decimalNat st @ ''): '' @ m)"
proof -
  let ?e = "httpFailure cfg st bodyJson"
  let ?msg = "if st = 404 then
         ''Model '' @ [dq] @ ollamaModel cfg @ [dq]
           @ '' not found. You may need to run: ollama pull '' @ ollamaModel cfg
       else if st = 400 then ''Bad request to Ollama API. The prompt might be malformed.''
       else if st = 500 then ''Ollama server error. Check the Ollama logs for more details.''
       else ''Ollama API error ('' @ decimalNat st @ ''): '' @ m"
  have h: "handleStreamingRequest parse cfg n p (world k) = ([], Inl ?e)"
    using assms(1,2) by (simp add: handleStreamingRequest_def)
  have f: "code ?e = None" "etype ?e = None" "status ?e = Some st" "message ?e = Some (JStr m)"
    using assms(4,5) by (simp_all add: httpFailure_def)
  have ne: "m \<noteq> []" using assms(5) by (rule httpFailureMessage_nonempty)
  have mi: "messageIncludes ?e ''timeout'' = Inr False" "messageIncludes ?e ''network'' = Inr False"
    using assms(6,7) by (simp_all add: messageIncludes_def f)
  have t: "transient ?e = Inr False" by (simp add: transient_def f mi)
  have u: "handleOllamaError cfg ?e = Inr ?msg"
    using assms(3) ne by (simp add: handleOllamaError_def Let_def f mi messageOrUnknown_def)
  have c: "callClaude parse cfg n p world k =
     (Log Info CallingOllama # [] @ [Log Error (UserMessage ?msg), ConsoleError ?msg]
        @ (if debug cfg then [Log Debug (FullError ?e)] else []),
      Inl (ErrorWith ?msg))"
    using t by (intro callClaude_fail [where world = world and k = k, OF h u]) simp
  show ?thesis
    unfolding c by (simp add: waits_simps attempts_simps)
qed

text \<open>
  The same failure at a later attempt, after attempts that were retried: the call as a
  whole has waited for the earlier attempts only, and ends with this failure.
\<close>

lemma callClaude_http_failure_later:
  assumes "\<forall>i. 0 \<le> i \<and> i < k \<longrightarrow>
      (\<exists>e. snd (handleStreamingRequest parse cfg n p (world i)) = Inl e \<and> retrySignature e)"
    and "k \<le> 2"
    and "world k = Response st bodyJson b" and "\<not> (200 \<le> st \<and> st \<le> 299)" and "st \<noteq> 0"
    and "bodyJson \<noteq> Some JNull" and "httpFailureMessage st bodyJson = JStr m"
    and "\<not> includesStr (toLowerCase m) ''timeout''" and "\<not> includesStr (toLowerCase m) ''network''"
  shows "\<exists>msg. snd (callClaude parse cfg n p world 0) = Inl (ErrorWith msg) \<and>
    waits (fst (callClaude parse cfg n p world 0)) = retryWaits 0 k \<and>
    attempts (fst (callClaude parse cfg n p world 0)) = k + 1 \<and>
    msg =
      (if st = 404 then
         ''Model '' @ [dq] @ ollamaModel cfg @ [dq]
           @ '' not found. You may need to run: ollama pull '' @ ollamaModel cfg
       else if st = 400 then ''Bad request to Ollama API. The prompt might be malformed.''
       else if st = 500 then ''Ollama server error. Check the Ollama logs for more details.''
       else ''Ollama API error ('' @ decimalNat st @ ''): '' @ m)"
  using callClaude_prefix [OF assms(1) _ assms(2)]
    callClaude_http_failure [where world = world and k = k, OF assms(3-9), of parse cfg n p]
  by auto

lemma callClaude_http_failure_examples:
  "callClaude exampleParser exampleConfig 3 ''prd.txt'' exampleMissingModel 0
     = ([Log Info CallingOllama,
         Log Error (UserMessage (''Model '' @ q ''llama3''
           @ '' not found. You may need to run: ollama pull llama3'')),
         ConsoleError (''Model '' @ q ''llama3''
           @ '' not found. You may need to run: ollama pull llama3'')],
        Inl (ErrorWith (''Model '' @ q ''llama3''
           @ '' not found. You may need to run: ollama pull llama3'')))"
  "snd (callClaude exampleParser exampleConfig 3 ''prd.txt'' exampleRefusedThenMissing 0)
     = Inl (ErrorWith (''Model '' @ q ''llama3''
           @ '' not found. You may need to run: ollama pull llama3''))"
  "waits (fst (callClaude exampleParser exampleConfig 3 ''prd.txt'' exampleRefusedThenMissing 0))
     = [5000]"
  "attempts (fst (callClaude exampleParser exampleConfig 3 ''prd.txt'' exampleRefusedThenMissing 0))
     = 2"
  by code_simp+

text \<open>
  Claim C6 says that every such failure surfaces a message that tells the user what to
  do, and for 404 one that names the model. The code builds that message from the
  failure object in \<open>handleOllamaError\<close>, which tests \<^verbatim>\<open>error.message?.toLowerCase()\<close>
  before it looks at the status, and \<open>handleStreamingRequest\<close> puts into
  \<^verbatim>\<open>message\<close> whatever the \<^verbatim>\<open>error\<close> field of the body holds. When a 404 response
  carries an object there, the test throws a \<^verbatim>\<open>TypeError\<close> inside the \<^verbatim>\<open>catch\<close> block
  of \<open>callClaude\<close>: nothing is logged, and the call ends with that \<^verbatim>\<open>TypeError\<close> instead
  of the message that names the model. A 404 response whose body is the JSON value
  \<^verbatim>\<open>null\<close> loses its status and ends with the generic message.
\<close>

theorem callClaude_object_error_escapes:
  "handleStreamingRequest exampleParser exampleConfig 3 ''prd.txt'' (exampleObjectError 0)
     = ([], Inl \<lparr>code = None, etype = None,
                 message = Some (JObj [(''message'', JStr (''model '' @ [sq] @ ''llama3'' @ [sq]
                                                            @ '' not found''))]),
                 status = Some 404\<rparr>) \<and>
   handleOllamaError exampleConfig
     \<lparr>code = None, etype = None,
      message = Some (JObj [(''message'', JStr (''model '' @ [sq] @ ''llama3'' @ [sq]
                                                 @ '' not found''))]),
      status = Some 404\<rparr> = Inl TypeError \<and>
   callClaude exampleParser exampleConfig 3 ''prd.txt'' exampleObjectError 0
     = ([Log Info CallingOllama], Inl (Escaped TypeError)) \<and>
   snd (callClaude exampleParser exampleConfig 3 ''prd.txt''
          (\<lambda>k. Response 404 (Some JNull) (NodeBody [] None)) 0)
     = Inl (ErrorWith (''Error communicating with Ollama: Cannot read properties of null (reading ''
                         @ [sq] @ ''error'' @ [sq] @ '')''))"
  by code_simp

section \<open>Properties of the stream assembler\<close>

text \<open>
  When every fragment ends at the end of a line, the two delivery modes assemble the
  same text.
\<close>

lemma splitOn_nonempty: "splitOn c xs \<noteq> []"
  by (induction xs) (auto split: list.splits)

lemma splitOn_append_sep: "splitOn c (xs @ c # ys) = splitOn c xs @ splitOn c ys"
proof (induction xs)
  case Nil
  then show ?case by simp
next
  case (Cons x xs)
  obtain l ls where s: "splitOn c xs = l # ls"
    using splitOn_nonempty [of c xs] by (cases "splitOn c xs") auto
  with Cons show ?case by simp
qed

lemma nonBlankLines_append_newline:
  "nonBlankLines (xs @ CHR 0x0A # ys) = nonBlankLines xs @ nonBlankLines ys"
  by (simp add: nonBlankLines_def splitOn_append_sep)

lemma nonBlankLines_Nil: "nonBlankLines [] = []"
  by (simp add: nonBlankLines_def trim_def)

lemma nonBlankLines_aligned:
  "lineAligned c \<Longrightarrow> nonBlankLines (c @ ys) = nonBlankLines c @ nonBlankLines ys"
proof (cases "c = []")
  case True
  then show ?thesis by (simp add: nonBlankLines_Nil)
next
  case False
  assume "lineAligned c"
  with False have "c = butlast c @ [CHR 0x0A]"
    by (metis append_butlast_last_id lineAligned_def)
  then obtain b where c: "c = b @ [CHR 0x0A]" ..
  have "nonBlankLines (c @ ys) = nonBlankLines b @ nonBlankLines ys"
    by (simp add: c nonBlankLines_append_newline)
  moreover have "nonBlankLines c = nonBlankLines b"
    using nonBlankLines_append_newline [of b "[]"] by (simp add: c nonBlankLines_Nil)
  ultimately show ?thesis by simp
qed

lemma nonBlankLines_concat_aligned:
  "\<forall>c \<in> set chunks. lineAligned c \<Longrightarrow>
   nonBlankLines (concat chunks) = concat (map nonBlankLines chunks)"
  by (induction chunks) (simp_all add: nonBlankLines_Nil nonBlankLines_aligned)

lemma assembleReaderBody_aligned:
  assumes "\<forall>c \<in> set chunks. lineAligned c"
  shows "snd (assembleReaderBody parse dbg chunks) = snd (assembleNodeBody parse dbg chunks)"
proof -
  have "concat (map snd (map (assembleLine parse dbg) (concat (map nonBlankLines chunks))))
      = concat (map (\<lambda>c. concat (map snd (map (assembleLine parse dbg) (nonBlankLines c)))) chunks)"
    by (induction chunks) simp_all
  then show ?thesis
    by (simp add: assembleReaderBody_def assembleNodeBody_def assembleText_def Let_def
        nonBlankLines_concat_aligned [OF assms] comp_def)
qed

lemma splitOn_no_sep: "c \<notin> set xs \<Longrightarrow> splitOn c xs = [xs]"
  by (induction xs) auto

lemma splitOn_joinWith:
  "ls \<noteq> [] \<Longrightarrow> \<forall>l \<in> set ls. c \<notin> set l \<Longrightarrow> splitOn c (joinWith [c] ls) = ls"
proof (induction "[c]" ls rule: joinWith.induct)
  case 1
  then show ?case by simp
next
  case (2 x)
  then show ?case by (simp add: splitOn_no_sep)
next
  case (3 x y ys)
  then have "splitOn c (joinWith [c] (y # ys)) = y # ys" by simp
  moreover from 3 have "splitOn c x = [x]" by (simp add: splitOn_no_sep)
  ultimately show ?case
    using splitOn_append_sep [of c x "joinWith [c] (y # ys)"] by simp
qed

lemma assembleLine_lineText:
  assumes "\<forall>v. parse line = Some v \<longrightarrow> contentIsText v"
  shows "snd (assembleLine parse dbg line) = lineText parse line"
proof (cases "parse line")
  case None
  then show ?thesis by (simp add: assembleLine_def lineText_def)
next
  case (Some v)
  with assms have t: "contentIsText v" by simp
  have "(case messageContent v of Inl e \<Rightarrow> [] | Inr t \<Rightarrow> t)
      = (case carriedContent v of None \<Rightarrow> [] | Some c \<Rightarrow> c)"
  proof (cases "getProp ''message'' v")
    case None
    then show ?thesis by (simp add: messageContent_def carriedContent_def)
  next
    case m: (Some m)
    then have nn: "v \<noteq> JNull" by auto
    show ?thesis
    proof (cases "getProp ''content'' m")
      case None
      with m nn show ?thesis by (simp add: messageContent_def carriedContent_def)
    next
      case (Some c)
      with t m obtain str where c: "c = JStr str"
        by (auto simp: contentIsText_def split: jsval.splits)
      from Some have "truthy (Some m)" by (cases m) auto
      with m nn Some c show ?thesis by (simp add: messageContent_def carriedContent_def)
    qed
  qed
  with Some show ?thesis
    by (simp add: assembleLine_def lineText_def Let_def split: sum.splits)
qed

lemma assembleText_stream:
  assumes "\<forall>l \<in> set ls. streamLine parse l"
  shows "snd (assembleText parse dbg (joinWith [CHR 0x0A] ls)) = concat (map (lineText parse) ls)"
proof (cases "ls = []")
  case True
  then show ?thesis by (simp add: assembleText_def nonBlankLines_Nil)
next
  case False
  from assms have "\<forall>l \<in> set ls. CHR 0x0A \<notin> set l" by (simp add: streamLine_def)
  with False have lines: "nonBlankLines (joinWith [CHR 0x0A] ls) = filter (\<lambda>l. trim l \<noteq> []) ls"
    by (simp add: nonBlankLines_def splitOn_joinWith)
  have one: "snd (assembleLine parse dbg l) = lineText parse l" if "l \<in> set ls" for l
    using that assms by (intro assembleLine_lineText) (auto simp: streamLine_def)
  have blank: "lineText parse l = []" if "l \<in> set ls" "trim l = []" for l
    using that assms by (auto simp: streamLine_def lineText_def split: option.splits)
  have "concat (map (\<lambda>l. snd (assembleLine parse dbg l)) (filter (\<lambda>l. trim l \<noteq> []) xs))
      = concat (map (lineText parse) xs)" if "set xs \<subseteq> set ls" for xs
    using that by (induction xs) (auto simp: one blank)
  then show ?thesis
    by (simp add: assembleText_def lines Let_def comp_def)
qed

text \<open>
  Claim C5: let the body of the response be the lines \<open>ls\<close> joined by newlines (a
  newline at the end is an empty last line), where no line that parses is blank and
  every \<^verbatim>\<open>message.content\<close> is a string. However \<^verbatim>\<open>fetch\<close> delivers this body, as one
  fragment or as many, cut anywhere, \<open>handleStreamingRequest\<close> assembles without an
  error the concatenation, in the order of the lines, of the content of every line that
  is valid JSON and carries one, the other lines contributing nothing. This is the
  branch taken for the body of node-fetch. The branch for a body with \<^verbatim>\<open>getReader\<close>
  assembles the same text when every fragment ends at the end of a line.
\<close>

theorem assembled_text_is_concatenation:
  assumes "\<forall>l \<in> set ls. streamLine parse l"
  shows "(concat chunks = joinWith [CHR 0x0A] ls \<longrightarrow>
      snd (assembleBody parse dbg (NodeBody chunks None))
        = Inr (concat (map (lineText parse) ls))) \<and>
    (concat fragments = joinWith [CHR 0x0A] ls \<and> (\<forall>c \<in> set fragments. lineAligned c) \<longrightarrow>
      snd (assembleBody parse dbg (ReaderBody fragments None))
        = Inr (concat (map (lineText parse) ls)))"
proof (intro conjI impI)
  assume "concat chunks = joinWith [CHR 0x0A] ls"
  then show "snd (assembleBody parse dbg (NodeBody chunks None))
        = Inr (concat (map (lineText parse) ls))"
    using assembleText_stream [OF assms, of dbg]
    by (simp add: assembleBody_def assembleNodeBody_def Let_def)
next
  assume a: "concat fragments = joinWith [CHR 0x0A] ls \<and> (\<forall>c \<in> set fragments. lineAligned c)"
  then have "snd (assembleReaderBody parse dbg fragments) = snd (assembleNodeBody parse dbg fragments)"
    by (intro assembleReaderBody_aligned) simp
  with a show "snd (assembleBody parse dbg (ReaderBody fragments None))
        = Inr (concat (map (lineText parse) ls))"
    using assembleText_stream [OF assms, of dbg]
    by (simp add: assembleBody_def assembleNodeBody_def Let_def)
qed

theorem assembled_text_is_concatenation_witness:
  "concat exampleChunks = joinWith [CHR 0x0A] exampleStreamLines \<and>
   concat exampleFragments = joinWith [CHR 0x0A] exampleStreamLines \<and>
   lineText exampleParser exampleLine = exampleDocumentText \<and>
   lineText exampleParser ''not json'' = [] \<and>
   snd (assembleBody exampleParser False (NodeBody exampleChunks None))
     = Inr exampleDocumentText \<and>
   snd (assembleBody exampleParser False (ReaderBody exampleFragments None))
     = Inr exampleDocumentText"
proof -
  have s1: "streamLine exampleParser exampleLine" by code_simp
  have s2: "streamLine exampleParser ''not json''" by code_simp
  have s3: "streamLine exampleParser []" by code_simp
  from s1 s2 s3 have s: "\<forall>l \<in> set exampleStreamLines. streamLine exampleParser l"
    by (simp add: exampleStreamLines_def)
  have c: "concat exampleChunks = joinWith [CHR 0x0A] exampleStreamLines" by code_simp
  have f: "concat exampleFragments = joinWith [CHR 0x0A] exampleStreamLines" by code_simp
  have a: "\<forall>c \<in> set exampleFragments. lineAligned c"
    by (simp add: exampleFragments_def lineAligned_def)
  have t1: "lineText exampleParser exampleLine = exampleDocumentText" by code_simp
  have t2: "lineText exampleParser ''not json'' = []" by code_simp
  have t3: "lineText exampleParser [] = []" by code_simp
  have t: "concat (map (lineText exampleParser) exampleStreamLines) = exampleDocumentText"
    by (simp add: exampleStreamLines_def t1 t2 t3)
  show ?thesis
    using assembled_text_is_concatenation [OF s, of exampleChunks False exampleFragments] c f a t t1 t2
    by simp
qed

text \<open>
  The branch for a body with \<^verbatim>\<open>getReader\<close> splits each fragment into lines on its own:
  when a line arrives in two fragments, neither half parses, and the content of the
  line is lost. The same two fragments in the body of node-fetch are joined first and
  give the document.
\<close>

lemma assembleReaderBody_loses_split_line:
  "snd (handleStreamingRequest exampleParser exampleConfig 3 ''prd.txt''
     (Response 200 None (NodeBody [take 20 exampleLine, drop 20 exampleLine @ [CHR 0x0A]] None)))
     = Inr exampleDocument \<and>
   snd (handleStreamingRequest exampleParser exampleConfig 3 ''prd.txt''
     (Response 200 None (ReaderBody [take 20 exampleLine, drop 20 exampleLine @ [CHR 0x0A]] None)))
     = Inr (fallbackDocument exampleConfig 3 ''prd.txt'') \<and>
   assembleNodeBody exampleParser False [take 20 exampleLine, drop 20 exampleLine @ [CHR 0x0A]]
     = ([], exampleDocumentText) \<and>
   assembleReaderBody exampleParser False [take 20 exampleLine, drop 20 exampleLine @ [CHR 0x0A]]
     = ([], [])"
  by code_simp

section \<open>Properties of the shared client\<close>

lemma getPerplexityClient_reuse:
  "perplexity st = Some c \<Longrightarrow> getPerplexityClient k st = (Inr c, st)"
  by (simp add: getPerplexityClient_def)

lemma getPerplexityClients_reuse:
  "perplexity st = Some c \<Longrightarrow> getPerplexityClients ks st = (map (\<lambda>k. Inr c) ks, st)"
  by (induction ks) (simp_all add: getPerplexityClient_reuse Let_def)

lemma getPerplexityClient_inv: "clientInv st \<Longrightarrow> clientInv (snd (getPerplexityClient k st))"
  by (auto simp: clientInv_def getPerplexityClient_def Let_def split: option.splits)

lemma getPerplexityClients_inv: "clientInv st \<Longrightarrow> clientInv (snd (getPerplexityClients ks st))"
  by (induction ks arbitrary: st) (simp_all add: getPerplexityClient_inv Let_def)

lemma clientInv_le: "clientInv st \<Longrightarrow> constructed st \<le> 1"
  by (auto simp: clientInv_def split: option.splits)

text \<open>
  Claim C9: in every run of calls from the initial state at most one client is
  constructed; the first call fails with an error and leaves the state as it is when the
  key is absent or empty, and otherwise constructs one client and stores it; and after
  a call that returned a client, every later call returns that same client and leaves
  the state, and so the number of constructed clients, unchanged.
\<close>

theorem getPerplexityClient_once:
  "constructed (snd (getPerplexityClients ks initialClientState)) \<le> 1 \<and>
   (k = None \<or> k = Some [] \<longrightarrow>
      (\<exists>msg. getPerplexityClient k initialClientState = (Inl msg, initialClientState))) \<and>
   (k \<noteq> None \<and> k \<noteq> Some [] \<longrightarrow>
      (\<exists>c. fst (getPerplexityClient k initialClientState) = Inr c \<and>
           perplexity (snd (getPerplexityClient k initialClientState)) = Some c \<and>
           constructed (snd (getPerplexityClient k initialClientState)) = 1)) \<and>
   (getPerplexityClient k' st = (Inr c', st') \<longrightarrow>
      getPerplexityClients ks' st' = (map (\<lambda>k. Inr c') ks', st'))"
proof (intro conjI impI)
  have "clientInv initialClientState"
    by (simp add: clientInv_def initialClientState_def)
  then show "constructed (snd (getPerplexityClients ks initialClientState)) \<le> 1"
    by (intro clientInv_le getPerplexityClients_inv)
next
  assume "k = None \<or> k = Some []"
  then show "\<exists>msg. getPerplexityClient k initialClientState = (Inl msg, initialClientState)"
    by (auto simp: getPerplexityClient_def initialClientState_def)
next
  assume "k \<noteq> None \<and> k \<noteq> Some []"
  then obtain key where "k = Some key" "key \<noteq> []" by (cases k) auto
  then show "\<exists>c. fst (getPerplexityClient k initialClientState) = Inr c \<and>
           perplexity (snd (getPerplexityClient k initialClientState)) = Some c \<and>
           constructed (snd (getPerplexityClient k initialClientState)) = 1"
    by (simp add: getPerplexityClient_def initialClientState_def Let_def)
next
  assume "getPerplexityClient k' st = (Inr c', st')"
  then have "perplexity st' = Some c'"
    by (auto simp: getPerplexityClient_def Let_def split: option.splits if_splits)
  then show "getPerplexityClients ks' st' = (map (\<lambda>k. Inr c') ks', st')"
    by (rule getPerplexityClients_reuse)
qed

theorem getPerplexityClient_once_witness:
  "constructed (snd (getPerplexityClients [None, Some ''pplx-1'', Some ''pplx-2'']
      initialClientState)) \<le> 1 \<and>
   (\<exists>msg. getPerplexityClient None initialClientState = (Inl msg, initialClientState)) \<and>
   getPerplexityClient (Some ''pplx-1'') initialClientState
     = (Inr \<lparr>clientId = 0, apiKey = ''pplx-1'', baseURL = ''https://api.perplexity.ai''\<rparr>,
        \<lparr>perplexity = Some \<lparr>clientId = 0, apiKey = ''pplx-1'',
                               baseURL = ''https://api.perplexity.ai''\<rparr>,
         constructed = 1\<rparr>) \<and>
   getPerplexityClients [None, Some ''pplx-2'']
      \<lparr>perplexity = Some \<lparr>clientId = 0, apiKey = ''pplx-1'',
                             baseURL = ''https://api.perplexity.ai''\<rparr>,
       constructed = 1\<rparr>
     = ([Inr \<lparr>clientId = 0, apiKey = ''pplx-1'', baseURL = ''https://api.perplexity.ai''\<rparr>,
         Inr \<lparr>clientId = 0, apiKey = ''pplx-1'', baseURL = ''https://api.perplexity.ai''\<rparr>],
        \<lparr>perplexity = Some \<lparr>clientId = 0, apiKey = ''pplx-1'',
                               baseURL = ''https://api.perplexity.ai''\<rparr>,
         constructed = 1\<rparr>)"
proof -
  let ?c = "\<lparr>clientId = 0, apiKey = ''pplx-1'', baseURL = ''https://api.perplexity.ai''\<rparr>"
  let ?st = "\<lparr>perplexity = Some ?c, constructed = 1\<rparr>"
  have g: "getPerplexityClient (Some ''pplx-1'') initialClientState = (Inr ?c, ?st)"
    by (simp add: getPerplexityClient_def initialClientState_def Let_def)
  show ?thesis
    using g
      getPerplexityClient_once [where ks = "[None, Some ''pplx-1'', Some ''pplx-2'']"
        and k = None and k' = "Some ''pplx-1''" and st = initialClientState and c' = ?c
        and st' = ?st and ks' = "[None, Some ''pplx-2'']"]
    by simp
qed

end
